theory Spec2Isabelle
  imports Main "HOL-Library.Sublist"
begin

section \<open>Package managers (utils/package-manager.ts)\<close>

subsection \<open>The descriptor table\<close>

text \<open>
  The interface \<open>PackageManager\<close> and the constant table \<open>PACKAGE_MANAGERS\<close>. The table
  is an object literal; \<open>Object.entries\<close> enumerates its own keys in insertion order, so it
  is kept as an association list in the order npm, pnpm, yarn, bun.
\<close>

record PackageManager =
  name :: string
  installCommand :: string
  runCommand :: string
  lockFile :: string
  configFile :: "string option"

definition npm :: PackageManager where
  "npm = \<lparr>name = ''npm'', installCommand = ''npm install'', runCommand = ''npm run'',
          lockFile = ''package-lock.json'', configFile = None\<rparr>"

definition pnpm :: PackageManager where
  "pnpm = \<lparr>name = ''pnpm'', installCommand = ''pnpm install'', runCommand = ''pnpm'',
           lockFile = ''pnpm-lock.yaml'', configFile = Some ''.pnpmrc''\<rparr>"

definition yarn :: PackageManager where
  "yarn = \<lparr>name = ''yarn'', installCommand = ''yarn install'', runCommand = ''yarn'',
           lockFile = ''yarn.lock'', configFile = Some ''.yarnrc.yml''\<rparr>"

definition bun :: PackageManager where
  "bun = \<lparr>name = ''bun'', installCommand = ''bun install'', runCommand = ''bun run'',
          lockFile = ''bun.lockb'', configFile = None\<rparr>"

definition PACKAGE_MANAGERS :: "(string \<times> PackageManager) list" where
  "PACKAGE_MANAGERS = [(''npm'', npm), (''pnpm'', pnpm), (''yarn'', yarn), (''bun'', bun)]"

text \<open>
  A property read \<open>PACKAGE_MANAGERS[k]\<close> on the object literal finds the four own
  properties and, failing that, walks the prototype chain to \<open>Object.prototype\<close>. The
  members found there are functions (and \<open>__proto__\<close> is the prototype object): all of
  them are truthy, none is a descriptor.
\<close>

datatype pm_value = Descriptor PackageManager | ProtoMember string

definition Object_prototype_keys :: "string list" where
  "Object_prototype_keys =
     [''constructor'', ''hasOwnProperty'', ''isPrototypeOf'', ''propertyIsEnumerable'',
      ''toLocaleString'', ''toString'', ''valueOf'', ''__defineGetter__'',
      ''__defineSetter__'', ''__lookupGetter__'', ''__lookupSetter__'', ''__proto__'']"

definition PACKAGE_MANAGERS_get :: "string \<Rightarrow> pm_value option" where
  "PACKAGE_MANAGERS_get k =
     (case map_of PACKAGE_MANAGERS k of
        Some pm \<Rightarrow> Some (Descriptor pm)
      | None \<Rightarrow> if k \<in> set Object_prototype_keys then Some (ProtoMember k) else None)"

text \<open>
  The functions below read \<open>.name\<close>, \<open>.installCommand\<close> and \<open>.runCommand\<close> of whatever
  value they are handed. On a descriptor these are its fields. On a member of
  \<open>Object.prototype\<close>, \<open>.name\<close> is the function's name (\<open>Object\<close> for the constructor,
  \<open>undefined\<close> for the prototype object itself) and the two commands are \<open>undefined\<close>.
  \<open>None\<close> stands for \<open>undefined\<close>.
\<close>

fun pm_name :: "pm_value \<Rightarrow> string option" where
  "pm_name (Descriptor pm) = Some (name pm)"
| "pm_name (ProtoMember k) =
     (if k = ''__proto__'' then None
      else if k = ''constructor'' then Some ''Object'' else Some k)"

fun pm_installCommand :: "pm_value \<Rightarrow> string option" where
  "pm_installCommand (Descriptor pm) = Some (installCommand pm)"
| "pm_installCommand (ProtoMember k) = None"

fun pm_runCommand :: "pm_value \<Rightarrow> string option" where
  "pm_runCommand (Descriptor pm) = Some (runCommand pm)"
| "pm_runCommand (ProtoMember k) = None"

text \<open>Interpolation of a possibly undefined string into a template literal.\<close>

fun js_string :: "string option \<Rightarrow> string" where
  "js_string (Some s) = s"
| "js_string None = ''undefined''"

subsection \<open>Scripts and development dependencies\<close>

text \<open>Object literals with string values are association lists in insertion order.\<close>

type_synonym str_object = "(string \<times> string) list"

definition generateScripts :: "pm_value \<Rightarrow> bool \<Rightarrow> str_object" where
  "generateScripts packageManager isTypeScript =
     (let baseScripts =
            (if isTypeScript
             then [(''dev'', ''ts-node-dev --respawn --transpile-only src/index.ts''),
                   (''build'', ''tsc''),
                   (''start'', ''node dist/index.js'')]
             else [(''dev'', ''node --watch src/index.js''),
                   (''start'', ''node src/index.js'')])
      in if pm_name packageManager = Some ''bun''
         then (if isTypeScript
               then [(''dev'', ''bun run --watch src/index.ts''),
                     (''build'', ''bun build src/index.ts --outdir dist --target node''),
                     (''start'', ''bun run dist/index.js'')]
               else [(''dev'', ''bun run --watch src/index.js''),
                     (''start'', ''bun run src/index.js'')])
         else baseScripts)"

definition generateDevDependencies :: "pm_value \<Rightarrow> bool \<Rightarrow> str_object" where
  "generateDevDependencies packageManager isTypeScript =
     (if \<not> isTypeScript then []
      else let base = [(''@types/node'', ''^20.0.0''), (''typescript'', ''^5.0.0'')]
           in if pm_name packageManager = Some ''bun'' then base
              else base @ [(''ts-node-dev'', ''^2.0.0'')])"

section \<open>The host: file system, process state, subprocesses\<close>

subsection \<open>Paths\<close>

text \<open>
  A path is the list of its components below the root; every path held by the model is
  absolute and normalised, as the results of \<open>path.resolve\<close> and of \<open>path.join\<close> on an
  absolute first argument are.
\<close>

type_synonym path = "string list"

text \<open>\<open>String.prototype.split\<close> with a one-character separator.\<close>

fun split_on :: "char \<Rightarrow> string \<Rightarrow> string list" where
  "split_on c [] = [[]]"
| "split_on c (x # xs) =
     (if x = c then [] # split_on c xs
      else (case split_on c xs of y # ys \<Rightarrow> (x # y) # ys | [] \<Rightarrow> [[x]]))"

text \<open>
  POSIX normalisation, one segment at a time: empty segments and \<open>.\<close> are dropped,
  \<open>..\<close> removes the last component (the parent of the root is the root).
\<close>

definition norm_step :: "path \<Rightarrow> string \<Rightarrow> path" where
  "norm_step p s =
     (if s = [] \<or> s = ''.'' then p else if s = ''..'' then butlast p else p @ [s])"

definition path_resolve :: "path \<Rightarrow> string \<Rightarrow> path" where
  "path_resolve base s =
     foldl norm_step (case s of [] \<Rightarrow> base | c # _ \<Rightarrow> if c = CHR ''/'' then [] else base)
       (split_on CHR ''/'' s)"

definition path_join :: "path \<Rightarrow> string \<Rightarrow> path" where
  "path_join p s = foldl norm_step p (split_on CHR ''/'' s)"

definition path_dirname :: "path \<Rightarrow> path" where
  "path_dirname p = butlast p"

subsection \<open>File contents\<close>

text \<open>
  The value a JSON text denotes. Numbers are only tested for truthiness here, so whole
  numbers suffice.
\<close>

datatype json =
    JNull
  | JBool bool
  | JNumber int
  | JString string
  | JArray "json list"
  | JObject "(string \<times> json) list"

text \<open>
  The bodies of the four templates are fixed texts of \<open>commands/create.ts\<close>; the model
  names them. A file holds a template, or a text that \<open>JSON.parse\<close> maps to a value
  (\<open>JSON.stringify\<close> produces such a text for the value), or a text that \<open>JSON.parse\<close>
  rejects.
\<close>

datatype template = MainTemplate bool | ReadmeTemplate | GitignoreTemplate | TsConfigTemplate

datatype content = Template template | JsonDoc json | NonJson string

definition tsconfig_json :: json where
  "tsconfig_json =
     JObject
      [(''compilerOptions'',
        JObject
         [(''target'', JString ''ES2020''), (''module'', JString ''commonjs''),
          (''lib'', JArray [JString ''ES2020'']), (''outDir'', JString ''./dist''),
          (''rootDir'', JString ''./src''), (''strict'', JBool True),
          (''esModuleInterop'', JBool True), (''skipLibCheck'', JBool True),
          (''forceConsistentCasingInFileNames'', JBool True),
          (''resolveJsonModule'', JBool True), (''declaration'', JBool True),
          (''declarationMap'', JBool True), (''sourceMap'', JBool True)]),
       (''include'', JArray [JString ''src/**/*'']),
       (''exclude'', JArray [JString ''node_modules'', JString ''dist''])]"

definition JSON_stringify :: "json \<Rightarrow> content" where
  "JSON_stringify v = JsonDoc v"

text \<open>\<open>None\<close> is the \<open>SyntaxError\<close>. Of the templates only the type configuration is JSON.\<close>

fun JSON_parse :: "content \<Rightarrow> json option" where
  "JSON_parse (JsonDoc v) = Some v"
| "JSON_parse (NonJson s) = None"
| "JSON_parse (Template TsConfigTemplate) = Some tsconfig_json"
| "JSON_parse (Template t) = None"

subsection \<open>The world\<close>

datatype node = Dir | File content

datatype error =
    EACCES path
  | EEXIST path
  | ENOENT path
  | ENOTDIR path
  | EISDIR path
  | CommandFailed string
  | TypeError
  | SyntaxError

text \<open>What is printed on the console, with the interpolated values.\<close>

datatype message =
    MsgCreating string
  | MsgLanguage bool
  | ErrDirectoryExists string
  | MsgSuccess
  | MsgQuickStart string string
  | ErrCreating error
  | MsgDetectedLock string string
  | MsgDetectedConfig string string
  | MsgDetectedManifest string
  | MsgUsingAvailable string
  | MsgFallback
  | MsgInstalling string

text \<open>
  Every call that reaches outside the program is recorded, in order: console output, file
  system calls, working-directory changes and subprocesses (with the working directory
  they start in). \<open>Resolve\<close> marks an entry into \<open>detectPackageManager\<close> with the
  directory it probes.
\<close>

datatype event =
    ConsoleLog message
  | ConsoleError message
  | Mkdir path
  | WriteFile path content
  | Rm path
  | Chdir path
  | Exec string path
  | Resolve path

record world =
  fs :: "path \<rightharpoonup> node"
  cwd :: path
  npm_config_user_agent :: "string option"
  events :: "event list"

text \<open>
  What the program cannot control: whether creating a given path is refused by the
  system (permissions, full disk), whether removing a given tree is refused (permissions,
  an entry in use), whether \<open><manager> --version\<close> runs, and what the install command
  does to the file system and whether it exits with status zero. The version probes are
  taken to leave the file system alone.
\<close>

record host =
  fs_fault :: "path \<Rightarrow> bool"
  rm_fault :: "path \<Rightarrow> bool"
  available :: "string \<Rightarrow> bool"
  install :: "string \<Rightarrow> path \<Rightarrow> (path \<rightharpoonup> node) \<Rightarrow> bool \<times> (path \<rightharpoonup> node)"

text \<open>
  In a file system every entry but the root lies in a directory, and the root is a
  directory.
\<close>

definition wf_fs :: "(path \<rightharpoonup> node) \<Rightarrow> bool" where
  "wf_fs f \<longleftrightarrow> f [] = Some Dir \<and> (\<forall>p. p \<noteq> [] \<and> f p \<noteq> None \<longrightarrow> f (butlast p) = Some Dir)"

definition wf_host :: "host \<Rightarrow> bool" where
  "wf_host h \<longleftrightarrow> (\<forall>c d f. wf_fs f \<longrightarrow> wf_fs (snd (install h c d f)))"

subsection \<open>Computations that may throw\<close>

text \<open>
  A computation takes the world and returns the new world together with its value or the
  exception thrown; the effects made before a throw stay.
\<close>

type_synonym 'a prog = "world \<Rightarrow> (error + 'a) \<times> world"

definition ret :: "'a \<Rightarrow> 'a prog" where
  "ret a w = (Inr a, w)"

definition throw :: "error \<Rightarrow> 'a prog" where
  "throw e w = (Inl e, w)"

definition bind :: "'a prog \<Rightarrow> ('a \<Rightarrow> 'b prog) \<Rightarrow> 'b prog" where
  "bind m k w = (case m w of (Inl e, w') \<Rightarrow> (Inl e, w') | (Inr a, w') \<Rightarrow> k a w')"

definition seq :: "unit prog \<Rightarrow> 'b prog \<Rightarrow> 'b prog" where
  "seq m k = bind m (\<lambda>_. k)"

text \<open>\<open>try { m } finally { fin }\<close>: an exception of the \<open>finally\<close> block replaces the outcome.\<close>

definition try_finally :: "'a prog \<Rightarrow> unit prog \<Rightarrow> 'a prog" where
  "try_finally m fin w =
     (case m w of (r, w1) \<Rightarrow>
        (case fin w1 of (Inl e, w2) \<Rightarrow> (Inl e, w2) | (Inr _, w2) \<Rightarrow> (r, w2)))"

text \<open>\<open>try { m } catch (e) { handler }\<close>, and a pure result taken as a computation.\<close>

definition try_catch :: "'a prog \<Rightarrow> (error \<Rightarrow> 'a prog) \<Rightarrow> 'a prog" where
  "try_catch m handler w =
     (case m w of (Inl e, w') \<Rightarrow> handler e w' | (Inr a, w') \<Rightarrow> (Inr a, w'))"

definition lift :: "error + 'a \<Rightarrow> 'a prog" where
  "lift r w = (r, w)"

fun forEach :: "'a list \<Rightarrow> ('a \<Rightarrow> unit prog) \<Rightarrow> unit prog" where
  "forEach [] body = ret ()"
| "forEach (x # xs) body = seq (body x) (forEach xs body)"

definition emit :: "event \<Rightarrow> unit prog" where
  "emit e w = (Inr (), w\<lparr>events := events w @ [e]\<rparr>)"

subsection \<open>File system and process primitives\<close>

definition existsSync :: "world \<Rightarrow> path \<Rightarrow> bool" where
  "existsSync w p \<longleftrightarrow> fs w p \<noteq> None"

text \<open>
  \<open>fs.mkdirSync(p, {recursive: true})\<close>: the components are created from the root down;
  an existing directory is passed through, an existing file stops the walk, and so does
  a refusal of the system. A file in the way of the last component is reported as
  \<open>EEXIST\<close>, a file further up as \<open>ENOTDIR\<close>, both with the path that was asked for.
\<close>

fun mkdir_walk :: "host \<Rightarrow> path \<Rightarrow> string list \<Rightarrow> (path \<rightharpoonup> node) \<Rightarrow> error option \<times> (path \<rightharpoonup> node)" where
  "mkdir_walk h pre [] f = (None, f)"
| "mkdir_walk h pre (c # cs) f =
     (let p = pre @ [c] in
      case f p of
        Some Dir \<Rightarrow> mkdir_walk h p cs f
      | Some (File _) \<Rightarrow> (Some (if cs = [] then EEXIST p else ENOTDIR (p @ cs)), f)
      | None \<Rightarrow> if fs_fault h p then (Some (EACCES p), f)
                else mkdir_walk h p cs (f(p \<mapsto> Dir)))"

definition mkdirSync :: "host \<Rightarrow> path \<Rightarrow> unit prog" where
  "mkdirSync h p w =
     (case mkdir_walk h [] p (fs w) of
        (r, f') \<Rightarrow>
          ((case r of None \<Rightarrow> Inr () | Some e \<Rightarrow> Inl e),
           w\<lparr>fs := f', events := events w @ [Mkdir p]\<rparr>))"

definition writeFileSync :: "host \<Rightarrow> path \<Rightarrow> content \<Rightarrow> unit prog" where
  "writeFileSync h p c w =
     (let w1 = w\<lparr>events := events w @ [WriteFile p c]\<rparr> in
      if p = [] then (Inl (EISDIR p), w1)
      else case fs w (butlast p) of
             None \<Rightarrow> (Inl (ENOENT p), w1)
           | Some (File _) \<Rightarrow> (Inl (ENOTDIR p), w1)
           | Some Dir \<Rightarrow>
               (case fs w p of
                  Some Dir \<Rightarrow> (Inl (EISDIR p), w1)
                | _ \<Rightarrow> if fs_fault h p then (Inl (EACCES p), w1)
                       else (Inr (), w1\<lparr>fs := (fs w)(p \<mapsto> File c)\<rparr>)))"

definition readFileSync :: "path \<Rightarrow> content prog" where
  "readFileSync p w =
     (case fs w p of
        Some (File c) \<Rightarrow> (Inr c, w)
      | Some Dir \<Rightarrow> (Inl (EISDIR p), w)
      | None \<Rightarrow> (Inl (ENOENT p), w))"

text \<open>
  \<open>fs.rmSync(p, {recursive: true, force: true})\<close> removes the entry and all below it.
  \<open>force\<close> silences a missing path only: a refusal of the system is thrown, and the
  tree is then taken to be left as it was.
\<close>

definition rmSync :: "host \<Rightarrow> path \<Rightarrow> unit prog" where
  "rmSync h p w =
     (let w1 = w\<lparr>events := events w @ [Rm p]\<rparr> in
      if rm_fault h p then (Inl (EACCES p), w1)
      else (Inr (), w1\<lparr>fs := (\<lambda>q. if prefix p q then None else fs w q)\<rparr>))"

definition chdir :: "path \<Rightarrow> unit prog" where
  "chdir p w =
     (let w1 = w\<lparr>events := events w @ [Chdir p]\<rparr> in
      case fs w p of
        Some Dir \<Rightarrow> (Inr (), w1\<lparr>cwd := p\<rparr>)
      | Some (File _) \<Rightarrow> (Inl (ENOTDIR p), w1)
      | None \<Rightarrow> (Inl (ENOENT p), w1))"

text \<open>
  \<open>execSync\<close> of the install command: a blocking subprocess started in the current
  working directory; a non-zero exit status is thrown. An \<open>undefined\<close> command is a
  \<open>TypeError\<close> before anything is started.
\<close>

definition execSync :: "host \<Rightarrow> string option \<Rightarrow> unit prog" where
  "execSync h command w =
     (case command of
        None \<Rightarrow> (Inl TypeError, w)
      | Some c \<Rightarrow>
          (case install h c (cwd w) (fs w) of
             (ok, f') \<Rightarrow>
               ((if ok then Inr () else Inl (CommandFailed c)),
                w\<lparr>fs := f', events := events w @ [Exec c (cwd w)]\<rparr>)))"

section \<open>detectPackageManager\<close>

text \<open>Probe 1: the first manager of the table whose lock file exists in the directory.\<close>

fun find_lock :: "world \<Rightarrow> path \<Rightarrow> (string \<times> PackageManager) list \<Rightarrow> PackageManager option" where
  "find_lock w workingDir [] = None"
| "find_lock w workingDir ((k, pm) # rest) =
     (let lockPath = path_join workingDir (lockFile pm) in
      if existsSync w lockPath then Some pm else find_lock w workingDir rest)"

text \<open>Probe 2: the first manager that has a config file name, and whose config file exists.\<close>

fun find_config :: "world \<Rightarrow> path \<Rightarrow> (string \<times> PackageManager) list \<Rightarrow> (PackageManager \<times> string) option" where
  "find_config w workingDir [] = None"
| "find_config w workingDir ((k, pm) # rest) =
     (case configFile pm of
        Some cf \<Rightarrow>
          (let configPath = path_join workingDir cf in
           if existsSync w configPath then Some (pm, cf) else find_config w workingDir rest)
      | None \<Rightarrow> find_config w workingDir rest)"

text \<open>
  Probe 3 reads \<open>packageJson.packageManager\<close>. On \<open>null\<close> the read throws; on an object
  it finds the member (the last one, should the text repeat the key); on any other value
  it is \<open>undefined\<close>.
\<close>

fun get_packageManager :: "json \<Rightarrow> error + json option" where
  "get_packageManager JNull = Inl TypeError"
| "get_packageManager (JObject members) = Inr (map_of (rev members) ''packageManager'')"
| "get_packageManager v = Inr None"

fun truthy :: "json \<Rightarrow> bool" where
  "truthy JNull = False"
| "truthy (JBool b) = b"
| "truthy (JNumber n) = (n \<noteq> 0)"
| "truthy (JString s) = (s \<noteq> [])"
| "truthy (JArray xs) = True"
| "truthy (JObject members) = True"

text \<open>\<open>v.split('@')\<close>: only a string has the method; on anything else the call throws.\<close>

fun js_split :: "json \<Rightarrow> char \<Rightarrow> error + string list" where
  "js_split (JString s) c = Inr (split_on c s)"
| "js_split v c = Inl TypeError"

definition parse_manifest :: "content \<Rightarrow> error + json" where
  "parse_manifest text = (case JSON_parse text of None \<Rightarrow> Inl SyntaxError | Some v \<Rightarrow> Inr v)"

definition manifest_probe :: "path \<Rightarrow> pm_value option prog" where
  "manifest_probe workingDir w =
     (let packageJsonPath = path_join workingDir ''package.json'' in
      if existsSync w packageJsonPath
      then try_catch
             (bind (readFileSync packageJsonPath) (\<lambda>text.
              bind (lift (parse_manifest text)) (\<lambda>packageJson.
              bind (lift (get_packageManager packageJson)) (\<lambda>field.
                case field of
                  None \<Rightarrow> ret None
                | Some v \<Rightarrow>
                    if truthy v
                    then bind (lift (js_split v CHR ''@'')) (\<lambda>parts.
                           let pmName = hd parts in
                           case PACKAGE_MANAGERS_get pmName of
                             Some found \<Rightarrow>
                               seq (emit (ConsoleLog (MsgDetectedManifest pmName)))
                                   (ret (Some found))
                           | None \<Rightarrow> ret None)
                    else ret None))))
             (\<lambda>error. ret None) w
      else ret None w)"

text \<open>Probe 4: \<open>String.prototype.includes\<close> on the user agent, in the order pnpm, yarn, bun.\<close>

fun str_includes :: "string \<Rightarrow> string \<Rightarrow> bool" where
  "str_includes [] t = (t = [])"
| "str_includes (x # xs) t = (prefix t (x # xs) \<or> str_includes xs t)"

definition env_probe :: "world \<Rightarrow> PackageManager option" where
  "env_probe w =
     (case npm_config_user_agent w of
        None \<Rightarrow> None
      | Some userAgent \<Rightarrow>
          if userAgent = [] then None
          else if str_includes userAgent ''pnpm'' then Some pnpm
          else if str_includes userAgent ''yarn'' then Some yarn
          else if str_includes userAgent ''bun'' then Some bun
          else None)"

text \<open>
  Probe 5: \<open><name> --version\<close> is run for each manager of the table, a failure is
  caught, and the managers that ran are collected in table order.
\<close>

definition execSync_version :: "host \<Rightarrow> string \<Rightarrow> unit prog" where
  "execSync_version h c w =
     ((if available h c then Inr () else Inl (CommandFailed c)),
      w\<lparr>events := events w @ [Exec c (cwd w)]\<rparr>)"

fun probe_available :: "host \<Rightarrow> (string \<times> PackageManager) list \<Rightarrow> (string \<times> PackageManager) list prog" where
  "probe_available h [] = ret []"
| "probe_available h ((k, pm) # rest) =
     bind (try_catch (seq (execSync_version h (name pm @ '' --version'')) (ret True))
                     (\<lambda>error. ret False)) (\<lambda>ran.
     bind (probe_available h rest) (\<lambda>others.
     ret (if ran then (k, pm) # others else others)))"

fun find_preferred :: "(string \<times> PackageManager) list \<Rightarrow> string list \<Rightarrow> PackageManager option" where
  "find_preferred availableManagers [] = None"
| "find_preferred availableManagers (preferred # rest) =
     (case find (\<lambda>am. fst am = preferred) availableManagers of
        Some found \<Rightarrow> Some (snd found)
      | None \<Rightarrow> find_preferred availableManagers rest)"

definition preferenceOrder :: "string list" where
  "preferenceOrder = [''pnpm'', ''yarn'', ''bun'', ''npm'']"

definition availability_probe :: "host \<Rightarrow> pm_value prog" where
  "availability_probe h =
     bind (probe_available h PACKAGE_MANAGERS) (\<lambda>availableManagers.
       case find_preferred availableManagers preferenceOrder of
         Some pm \<Rightarrow> seq (emit (ConsoleLog (MsgUsingAvailable (name pm)))) (ret (Descriptor pm))
       | None \<Rightarrow> seq (emit (ConsoleLog MsgFallback)) (ret (Descriptor npm)))"

text \<open>
  The argument is the directory to probe, already resolved; \<open>None\<close> (no argument, or the
  empty string, which is falsy) selects the current working directory.
\<close>

definition detectPackageManager :: "host \<Rightarrow> path option \<Rightarrow> pm_value prog" where
  "detectPackageManager h projectPath w =
     (let workingDir = (case projectPath of Some p \<Rightarrow> p | None \<Rightarrow> cwd w);
          w0 = w\<lparr>events := events w @ [Resolve workingDir]\<rparr>
      in case find_lock w0 workingDir PACKAGE_MANAGERS of
           Some pm \<Rightarrow>
             seq (emit (ConsoleLog (MsgDetectedLock (name pm) (lockFile pm))))
                 (ret (Descriptor pm)) w0
         | None \<Rightarrow>
            (case find_config w0 workingDir PACKAGE_MANAGERS of
               Some (pm, cf) \<Rightarrow>
                 seq (emit (ConsoleLog (MsgDetectedConfig (name pm) cf)))
                     (ret (Descriptor pm)) w0
             | None \<Rightarrow>
                 bind (manifest_probe workingDir) (\<lambda>fromManifest.
                   case fromManifest of
                     Some found \<Rightarrow> ret found
                   | None \<Rightarrow>
                       (\<lambda>w1. case env_probe w1 of
                                Some pm \<Rightarrow> ret (Descriptor pm) w1
                              | None \<Rightarrow> availability_probe h w1)) w0))"

section \<open>installDependencies\<close>

definition installDependencies :: "host \<Rightarrow> pm_value \<Rightarrow> path \<Rightarrow> unit prog" where
  "installDependencies h packageManager projectPath =
     seq (emit (ConsoleLog (MsgInstalling (js_string (pm_name packageManager)))))
       (\<lambda>w. let originalCwd = cwd w in
             seq (chdir projectPath)
               (try_finally (execSync h (pm_installCommand packageManager))
                            (chdir originalCwd)) w)"

section \<open>Project creation (commands/create.ts)\<close>

text \<open>The options object of the command line parser; a flag that was not given is absent.\<close>

record CreateOptions =
  typescript :: "bool option"
  javascript :: "bool option"

definition flag_set :: "bool option \<Rightarrow> bool" where
  "flag_set b \<longleftrightarrow> b = Some True"

definition createProjectStructure :: "host \<Rightarrow> path \<Rightarrow> CreateOptions \<Rightarrow> unit prog" where
  "createProjectStructure h projectPath options =
     (let dirs = [''src'', ''src/routes'', ''src/middleware'', ''src/utils'', ''public''] in
      forEach dirs (\<lambda>dir. mkdirSync h (path_join projectPath dir)))"

definition getTemplateFiles :: "string \<Rightarrow> string \<Rightarrow> (string \<times> content) list" where
  "getTemplateFiles template ext =
     (let isTS = (ext = ''ts'') in
      [(''src/index.'' @ ext, Template (MainTemplate isTS)),
       (''README.md'', Template ReadmeTemplate),
       (''.gitignore'', Template GitignoreTemplate)]
      @ (if isTS then [(''tsconfig.json'', Template TsConfigTemplate)] else []))"

definition copyTemplateFiles :: "host \<Rightarrow> path \<Rightarrow> string \<Rightarrow> bool option \<Rightarrow> unit prog" where
  "copyTemplateFiles h projectPath template useJS =
     (let ext = (if flag_set useJS then ''js'' else ''ts'');
          files = getTemplateFiles template ext
      in forEach files (\<lambda>(filePath, content).
           let fullPath = path_join projectPath filePath in
           seq (mkdirSync h (path_dirname fullPath)) (writeFileSync h fullPath content)))"

definition str_json :: "str_object \<Rightarrow> json" where
  "str_json kvs = JObject (map (\<lambda>(k, v). (k, JString v)) kvs)"

text \<open>The object literal \<open>packageJson\<close> of \<open>createPackageJson\<close>.\<close>

definition packageJson_object :: "pm_value \<Rightarrow> string \<Rightarrow> bool \<Rightarrow> json" where
  "packageJson_object packageManager projectName isTS =
     JObject
      ([(''name'', JString projectName),
        (''version'', JString ''1.0.0''),
        (''description'', JString ''A new Atomik project created with basic template''),
        (''main'', JString (if isTS then ''dist/index.js'' else ''src/index.js'')),
        (''scripts'', str_json (generateScripts packageManager isTS)),
        (''keywords'', JArray [JString ''atomik'', JString ''web'', JString ''framework'']),
        (''author'', JString []),
        (''license'', JString ''MIT''),
        (''dependencies'', str_json [(''atomikjs'', ''^1.0.0'')]),
        (''devDependencies'', str_json (generateDevDependencies packageManager isTS))]
       @ (if pm_name packageManager \<noteq> Some ''npm''
          then [(''packageManager'', JString (js_string (pm_name packageManager) @ ''@latest''))]
          else []))"

definition createPackageJson :: "host \<Rightarrow> path \<Rightarrow> string \<Rightarrow> CreateOptions \<Rightarrow> unit prog" where
  "createPackageJson h projectPath projectName options =
     (let isTS = (\<not> flag_set (javascript options)) in
      bind (detectPackageManager h (Some projectPath)) (\<lambda>packageManager.
        let packageJson = packageJson_object packageManager projectName isTS in
        writeFileSync h (path_join projectPath ''package.json'') (JSON_stringify packageJson)))"

text \<open>
  How a run of \<open>createProject\<close> ends: the promise resolves, the process exits with a
  status, or the promise rejects with an exception nobody caught. The initial
  \<open>mkdirSync\<close> stands before the \<open>try\<close>, and the \<open>rmSync\<close> of the \<open>catch\<close> block is
  not guarded: what either throws rejects the promise, and \<open>process.exit\<close> is not
  reached.
\<close>

datatype outcome = Returned | Exited nat | Rejected error

text \<open>The body of the \<open>try\<close> block.\<close>

definition create_steps :: "host \<Rightarrow> path \<Rightarrow> string \<Rightarrow> CreateOptions \<Rightarrow> unit prog" where
  "create_steps h projectPath projectName options =
     seq (createProjectStructure h projectPath options)
    (seq (copyTemplateFiles h projectPath ''basic'' (javascript options))
    (seq (createPackageJson h projectPath projectName options)
    (bind (detectPackageManager h (Some projectPath)) (\<lambda>packageManager.
     seq (installDependencies h packageManager projectPath)
    (seq (emit (ConsoleLog MsgSuccess))
         (let runCmd = pm_runCommand packageManager in
          emit (ConsoleLog (MsgQuickStart projectName (js_string runCmd)))))))))"

definition createProject :: "host \<Rightarrow> string \<Rightarrow> CreateOptions \<Rightarrow> world \<Rightarrow> outcome \<times> world" where
  "createProject h projectName options w =
     (let w1 = w\<lparr>events := events w @ [ConsoleLog (MsgCreating projectName),
                                         ConsoleLog (MsgLanguage (flag_set (javascript options)))]\<rparr>;
          projectPath = path_resolve (cwd w1) projectName
      in if existsSync w1 projectPath
         then (Exited 1, w1\<lparr>events := events w1 @ [ConsoleError (ErrDirectoryExists projectName)]\<rparr>)
         else
           (case mkdirSync h projectPath w1 of
              (Inl e, w2) \<Rightarrow> (Rejected e, w2)
            | (Inr _, w2) \<Rightarrow>
                (case create_steps h projectPath projectName options w2 of
                   (Inr _, w3) \<Rightarrow> (Returned, w3)
                 | (Inl e, w3) \<Rightarrow>
                     (let w4 = w3\<lparr>events := events w3 @ [ConsoleError (ErrCreating e)]\<rparr>
                      in if existsSync w4 projectPath
                         then (case rmSync h projectPath w4 of
                                 (Inl e', w5) \<Rightarrow> (Rejected e', w5)
                               | (Inr _, w5) \<Rightarrow> (Exited 1, w5))
                         else (Exited 1, w4)))))"

section \<open>Vocabulary of the statements\<close>

text \<open>A directory without any lock file, and without any config file, of the table.\<close>

definition no_lock_files :: "world \<Rightarrow> path \<Rightarrow> bool" where
  "no_lock_files w d \<longleftrightarrow> (\<forall>(k, pm) \<in> set PACKAGE_MANAGERS. fs w (d @ [lockFile pm]) = None)"

definition no_config_files :: "world \<Rightarrow> path \<Rightarrow> bool" where
  "no_config_files w d \<longleftrightarrow>
     (\<forall>(k, pm) \<in> set PACKAGE_MANAGERS. \<forall>cf. configFile pm = Some cf \<longrightarrow> fs w (d @ [cf]) = None)"

text \<open>
  What probes 4 to 6 compute. The managers whose version command runs, the subprocesses
  this starts, the manager the preference order then selects (npm when none ran), and
  the manager and the events of the three probes together.
\<close>

definition ran :: "host \<Rightarrow> (string \<times> PackageManager) list \<Rightarrow> (string \<times> PackageManager) list" where
  "ran h xs = filter (\<lambda>am. available h (name (snd am) @ '' --version'')) xs"

definition version_events :: "path \<Rightarrow> (string \<times> PackageManager) list \<Rightarrow> event list" where
  "version_events d xs = map (\<lambda>am. Exec (name (snd am) @ '' --version'') d) xs"

definition fallback_manager :: "host \<Rightarrow> PackageManager" where
  "fallback_manager h =
     (case find_preferred (ran h PACKAGE_MANAGERS) preferenceOrder of Some pm \<Rightarrow> pm | None \<Rightarrow> npm)"

definition late_probes :: "host \<Rightarrow> world \<Rightarrow> PackageManager" where
  "late_probes h w = (case env_probe w of Some pm \<Rightarrow> pm | None \<Rightarrow> fallback_manager h)"

definition late_events :: "host \<Rightarrow> world \<Rightarrow> event list" where
  "late_events h w =
     (case env_probe w of
        Some pm \<Rightarrow> []
      | None \<Rightarrow> version_events (cwd w) PACKAGE_MANAGERS @
          [ConsoleLog (case find_preferred (ran h PACKAGE_MANAGERS) preferenceOrder of
                         Some pm \<Rightarrow> MsgUsingAvailable (name pm) | None \<Rightarrow> MsgFallback)])"

text \<open>
  Properties of computations: a well-formed file system stays well-formed, and whatever
  is added to the record of events satisfies a predicate.
\<close>

definition keeps_wf :: "'a prog \<Rightarrow> bool" where
  "keeps_wf m \<longleftrightarrow> (\<forall>w. wf_fs (fs w) \<longrightarrow> wf_fs (fs (snd (m w))))"

definition emits_only :: "(event \<Rightarrow> bool) \<Rightarrow> 'a prog \<Rightarrow> bool" where
  "emits_only Q m \<longleftrightarrow> (\<forall>w. \<exists>es. events (snd (m w)) = events w @ es \<and> (\<forall>e \<in> set es. Q e))"

text \<open>Every prefix of the path, the path included, is a directory.\<close>

definition dir_chain :: "(path \<rightharpoonup> node) \<Rightarrow> path \<Rightarrow> bool" where
  "dir_chain f p \<longleftrightarrow> (\<forall>q. prefix q p \<longrightarrow> f q = Some Dir)"

text \<open>The path a recorded call writes a file to, and the entries into the resolver.\<close>

fun written_path :: "event \<Rightarrow> path option" where
  "written_path (WriteFile p c) = Some p"
| "written_path e = None"

fun is_resolve :: "event \<Rightarrow> bool" where
  "is_resolve (Resolve p) = True"
| "is_resolve e = False"




text \<open>The file system and the events of a run of the steps in which nothing fails.\<close>

definition project_fs :: "(path \<rightharpoonup> node) \<Rightarrow> path \<Rightarrow> string \<Rightarrow> bool \<Rightarrow> PackageManager \<Rightarrow> (path \<rightharpoonup> node)" where
  "project_fs f p projectName useJS D =
     (let g = f(p @ [''src''] \<mapsto> Dir, p @ [''src'', ''routes''] \<mapsto> Dir,
                p @ [''src'', ''middleware''] \<mapsto> Dir, p @ [''src'', ''utils''] \<mapsto> Dir,
                p @ [''public''] \<mapsto> Dir);
          g' = (if useJS
                then g(p @ [''src'', ''index.js''] \<mapsto> File (Template (MainTemplate False)),
                       p @ [''README.md''] \<mapsto> File (Template ReadmeTemplate),
                       p @ [''.gitignore''] \<mapsto> File (Template GitignoreTemplate))
                else g(p @ [''src'', ''index.ts''] \<mapsto> File (Template (MainTemplate True)),
                       p @ [''README.md''] \<mapsto> File (Template ReadmeTemplate),
                       p @ [''.gitignore''] \<mapsto> File (Template GitignoreTemplate),
                       p @ [''tsconfig.json''] \<mapsto> File (Template TsConfigTemplate)))
      in g'(p @ [''package.json''] \<mapsto>
              File (JSON_stringify (packageJson_object (Descriptor D) projectName (\<not> useJS)))))"

definition scaffold_events :: "path \<Rightarrow> bool \<Rightarrow> event list" where
  "scaffold_events p useJS =
     [Mkdir (p @ [''src'']), Mkdir (p @ [''src'', ''routes'']),
      Mkdir (p @ [''src'', ''middleware'']), Mkdir (p @ [''src'', ''utils'']),
      Mkdir (p @ [''public'']), Mkdir (p @ [''src''])]
     @ (if useJS
        then [WriteFile (p @ [''src'', ''index.js'']) (Template (MainTemplate False)),
              Mkdir p, WriteFile (p @ [''README.md'']) (Template ReadmeTemplate),
              Mkdir p, WriteFile (p @ [''.gitignore'']) (Template GitignoreTemplate)]
        else [WriteFile (p @ [''src'', ''index.ts'']) (Template (MainTemplate True)),
              Mkdir p, WriteFile (p @ [''README.md'']) (Template ReadmeTemplate),
              Mkdir p, WriteFile (p @ [''.gitignore'']) (Template GitignoreTemplate),
              Mkdir p, WriteFile (p @ [''tsconfig.json'']) (Template TsConfigTemplate)])"

definition project_events :: "host \<Rightarrow> world \<Rightarrow> path \<Rightarrow> string \<Rightarrow> bool \<Rightarrow> event list" where
  "project_events h w p projectName useJS =
     (let D = late_probes h w in
      scaffold_events p useJS
      @ Resolve p # late_events h w
      @ [WriteFile (p @ [''package.json''])
           (JSON_stringify (packageJson_object (Descriptor D) projectName (\<not> useJS)))]
      @ Resolve p # (if D = npm then late_events h w
                     else [ConsoleLog (MsgDetectedManifest (name D))])
      @ [ConsoleLog (MsgInstalling (name D)), Chdir p, Exec (installCommand D) p, Chdir (cwd w),
         ConsoleLog MsgSuccess, ConsoleLog (MsgQuickStart projectName (runCommand D))])"

text \<open>
  The world after the two opening lines of \<open>createProject\<close>, and a file system in which
  neither the path nor anything below it exists.
\<close>

definition announced :: "string \<Rightarrow> CreateOptions \<Rightarrow> world \<Rightarrow> world" where
  "announced projectName options w =
     w\<lparr>events := events w @ [ConsoleLog (MsgCreating projectName),
                               ConsoleLog (MsgLanguage (flag_set (javascript options)))]\<rparr>"


subsection \<open>Example worlds\<close>

text \<open>A home directory with a subdirectory \<open>taken\<close> and a regular file \<open>notes\<close>.\<close>

definition demo_world :: world where
  "demo_world =
     \<lparr>fs = [[] \<mapsto> Dir, [''home''] \<mapsto> Dir, [''home'', ''taken''] \<mapsto> Dir,
             [''home'', ''notes''] \<mapsto> File (NonJson ''to do'')],
      cwd = [''home''], npm_config_user_agent = None, events = []\<rparr>"

text \<open>A directory whose manifest names a member of \<open>Object.prototype\<close> as its manager.\<close>

definition proto_world :: world where
  "proto_world =
     \<lparr>fs = [[] \<mapsto> Dir, [''app''] \<mapsto> Dir,
             [''app'', ''package.json''] \<mapsto>
               File (JsonDoc (JObject [(''packageManager'', JString ''constructor@1.0.0'')]))],
      cwd = [''app''], npm_config_user_agent = None, events = []\<rparr>"



text \<open>A directory that holds nothing but a manifest generated for pnpm.\<close>

definition pinned_world :: world where
  "pinned_world =
     \<lparr>fs = [[] \<mapsto> Dir, [''app''] \<mapsto> Dir,
             [''app'', ''package.json''] \<mapsto>
               File (JSON_stringify (packageJson_object (Descriptor pnpm) ''demo'' True))],
      cwd = [''app''], npm_config_user_agent = None, events = []\<rparr>"

text \<open>A host on which nothing is refused, only npm is installed and the install works.\<close>

definition demo_host :: host where
  "demo_host =
     \<lparr>fs_fault = (\<lambda>p. False), rm_fault = (\<lambda>p. False), available = (\<lambda>c. c = ''npm --version''),
      install = (\<lambda>c d f. (True, if f d = Some Dir then f(d @ [''node_modules''] \<mapsto> Dir) else f))\<rparr>"

definition demo_options :: CreateOptions where
  "demo_options = \<lparr>typescript = Some True, javascript = None\<rparr>"

text \<open>A host on which the install command leaves a partial tree behind and fails.\<close>

definition failing_host :: host where
  "failing_host =
     \<lparr>fs_fault = (\<lambda>p. False), rm_fault = (\<lambda>p. False), available = (\<lambda>c. c = ''npm --version''),
      install = (\<lambda>c d f. (False, if f d = Some Dir then f(d @ [''node_modules''] \<mapsto> Dir) else f))\<rparr>"

definition js_options :: CreateOptions where
  "js_options = \<lparr>typescript = Some True, javascript = Some True\<rparr>"


text \<open>A host on which only pnpm is installed.\<close>

definition pnpm_host :: host where
  "pnpm_host =
     \<lparr>fs_fault = (\<lambda>p. False), rm_fault = (\<lambda>p. False), available = (\<lambda>c. c = ''pnpm --version''),
      install = (\<lambda>c d f. (True, if f d = Some Dir then f(d @ [''node_modules''] \<mapsto> Dir) else f))\<rparr>"

section \<open>Basic facts\<close>

lemma path_join_names:
  "path_join p ''package-lock.json'' = p @ [''package-lock.json'']"
  "path_join p ''pnpm-lock.yaml'' = p @ [''pnpm-lock.yaml'']"
  "path_join p ''yarn.lock'' = p @ [''yarn.lock'']"
  "path_join p ''bun.lockb'' = p @ [''bun.lockb'']"
  "path_join p ''.pnpmrc'' = p @ [''.pnpmrc'']"
  "path_join p ''.yarnrc.yml'' = p @ [''.yarnrc.yml'']"
  "path_join p ''package.json'' = p @ [''package.json'']"
  "path_join p ''src'' = p @ [''src'']"
  "path_join p ''src/routes'' = p @ [''src'', ''routes'']"
  "path_join p ''src/middleware'' = p @ [''src'', ''middleware'']"
  "path_join p ''src/utils'' = p @ [''src'', ''utils'']"
  "path_join p ''public'' = p @ [''public'']"
  "path_join p ''src/index.ts'' = p @ [''src'', ''index.ts'']"
  "path_join p ''src/index.js'' = p @ [''src'', ''index.js'']"
  "path_join p ''README.md'' = p @ [''README.md'']"
  "path_join p ''.gitignore'' = p @ [''.gitignore'']"
  "path_join p ''tsconfig.json'' = p @ [''tsconfig.json'']"
  by (simp_all add: path_join_def norm_step_def)

lemmas pm_defs = PACKAGE_MANAGERS_def npm_def pnpm_def yarn_def bun_def

lemmas prog_defs = ret_def throw_def bind_def seq_def try_catch_def try_finally_def lift_def emit_def

lemma in_table: "(k, M) \<in> set PACKAGE_MANAGERS \<longleftrightarrow>
   (k = ''npm'' \<and> M = npm) \<or> (k = ''pnpm'' \<and> M = pnpm) \<or> (k = ''yarn'' \<and> M = yarn) \<or> (k = ''bun'' \<and> M = bun)"
  by (auto simp: PACKAGE_MANAGERS_def)

lemma pm_fields [simp]:
  "name npm = ''npm''" "name pnpm = ''pnpm''" "name yarn = ''yarn''" "name bun = ''bun''"
  "lockFile npm = ''package-lock.json''" "lockFile pnpm = ''pnpm-lock.yaml''"
  "lockFile yarn = ''yarn.lock''" "lockFile bun = ''bun.lockb''"
  "configFile npm = None" "configFile pnpm = Some ''.pnpmrc''"
  "configFile yarn = Some ''.yarnrc.yml''" "configFile bun = None"
  "installCommand npm = ''npm install''" "installCommand pnpm = ''pnpm install''"
  "installCommand yarn = ''yarn install''" "installCommand bun = ''bun install''"
  "runCommand npm = ''npm run''" "runCommand pnpm = ''pnpm''"
  "runCommand yarn = ''yarn''" "runCommand bun = ''bun run''"
  by (simp_all add: npm_def pnpm_def yarn_def bun_def)

lemma pm_distinct [simp]:
  "npm \<noteq> pnpm" "npm \<noteq> yarn" "npm \<noteq> bun" "pnpm \<noteq> npm" "pnpm \<noteq> yarn" "pnpm \<noteq> bun"
  "yarn \<noteq> npm" "yarn \<noteq> pnpm" "yarn \<noteq> bun" "bun \<noteq> npm" "bun \<noteq> pnpm" "bun \<noteq> yarn"
  by (simp_all add: npm_def pnpm_def yarn_def bun_def)


lemma find_lock_events [simp]: "find_lock (w\<lparr>events := es\<rparr>) d xs = find_lock w d xs"
  by (induction xs) (auto simp: existsSync_def)

lemma find_config_events [simp]: "find_config (w\<lparr>events := es\<rparr>) d xs = find_config w d xs"
  by (induction xs) (auto simp: existsSync_def split: option.splits)

lemma env_probe_events [simp]: "env_probe (w\<lparr>events := es\<rparr>) = env_probe w"
  by (simp add: env_probe_def)

lemma find_lock_none: "no_lock_files w d \<Longrightarrow> find_lock w d PACKAGE_MANAGERS = None"
  by (simp add: no_lock_files_def pm_defs path_join_names existsSync_def)

lemma find_config_none: "no_config_files w d \<Longrightarrow> find_config w d PACKAGE_MANAGERS = None"
  by (simp add: no_config_files_def pm_defs path_join_names existsSync_def)

lemma manifest_probe_total: "\<exists>r w'. manifest_probe d w = (Inr r, w')"
  by (auto simp: manifest_probe_def prog_defs Let_def split: prod.splits sum.splits)

lemma version_try:
  "try_catch (seq (execSync_version h c) (ret True)) (\<lambda>error. ret False) w
     = (Inr (available h c), w\<lparr>events := events w @ [Exec c (cwd w)]\<rparr>)"
  by (simp add: prog_defs execSync_version_def)

lemma probe_available_eq:
  "probe_available h xs w = (Inr (ran h xs), w\<lparr>events := events w @ version_events (cwd w) xs\<rparr>)"
proof (induction xs arbitrary: w)
  case Nil
  then show ?case by (simp add: ret_def ran_def version_events_def)
next
  case (Cons x xs)
  obtain k pm where x: "x = (k, pm)" by (cases x)
  show ?case
    by (simp add: x bind_def[of "try_catch _ _"] version_try Cons.IH bind_def ret_def ran_def version_events_def)
qed

lemma availability_probe_eq:
  "availability_probe h w =
     (Inr (Descriptor (fallback_manager h)),
      w\<lparr>events := events w @ version_events (cwd w) PACKAGE_MANAGERS @
          [ConsoleLog (case find_preferred (ran h PACKAGE_MANAGERS) preferenceOrder of
                         Some pm \<Rightarrow> MsgUsingAvailable (name pm) | None \<Rightarrow> MsgFallback)]\<rparr>)"
  by (simp add: availability_probe_def bind_def probe_available_eq seq_def emit_def ret_def
        fallback_manager_def split: option.splits)

lemma availability_probe_total: "\<exists>r w'. availability_probe h w = (Inr r, w')"
  by (simp add: availability_probe_eq)

lemma detect_total: "\<exists>v w'. detectPackageManager h projectPath w = (Inr v, w')"
proof -
  define d where "d = (case projectPath of Some p \<Rightarrow> p | None \<Rightarrow> cwd w)"
  define w0 where "w0 = w\<lparr>events := events w @ [Resolve d]\<rparr>"
  obtain r w1 where m: "manifest_probe d w0 = (Inr r, w1)" using manifest_probe_total by blast
  obtain r2 w2 where a: "availability_probe h w1 = (Inr r2, w2)" using availability_probe_total by blast
  show ?thesis
    using m a unfolding detectPackageManager_def Let_def d_def[symmetric] w0_def[symmetric]
    by (auto simp: prog_defs split: option.splits prod.splits)
qed

lemma manifest_probe_absent:
  "fs w (d @ [''package.json'']) = None \<Longrightarrow> manifest_probe d w = (Inr None, w)"
  by (simp add: manifest_probe_def path_join_names existsSync_def ret_def)

lemma detect_late:
  assumes "no_lock_files w d" "no_config_files w d"
      and "manifest_probe d (w\<lparr>events := events w @ [Resolve d]\<rparr>) = (Inr None, w1)"
  shows "detectPackageManager h (Some d) w =
           (Inr (Descriptor (late_probes h w1)), w1\<lparr>events := events w1 @ late_events h w1\<rparr>)"
  using assms
  by (simp add: detectPackageManager_def find_lock_none find_config_none bind_def ret_def
        availability_probe_eq late_probes_def late_events_def split: option.splits)

lemma detect_fresh:
  assumes "no_lock_files w d" "no_config_files w d" "fs w (d @ [''package.json'']) = None"
  shows "detectPackageManager h (Some d) w =
           (Inr (Descriptor (late_probes h w)),
            w\<lparr>events := events w @ Resolve d # late_events h w\<rparr>)"
proof -
  let ?w0 = "w\<lparr>events := events w @ [Resolve d]\<rparr>"
  have "manifest_probe d ?w0 = (Inr None, ?w0)"
    using assms(3) by (simp add: manifest_probe_absent)
  from detect_late[OF assms(1,2) this, of h]
  show ?thesis by (simp add: late_probes_def late_events_def split: option.splits)
qed

lemma detect_default:
  assumes "no_lock_files w d" "no_config_files w d" "fs w (d @ [''package.json'']) = None"
      and "npm_config_user_agent w = None"
      and "\<forall>(k, pm) \<in> set PACKAGE_MANAGERS. \<not> available h (name pm @ '' --version'')"
  shows "fst (detectPackageManager h (Some d) w) = Inr (Descriptor npm)"
proof -
  have "ran h PACKAGE_MANAGERS = []"
    using assms(5) by (auto simp: ran_def filter_empty_conv)
  then have "late_probes h w = npm"
    using assms(4) by (simp add: late_probes_def env_probe_def fallback_manager_def preferenceOrder_def)
  then show ?thesis by (simp add: detect_fresh[OF assms(1-3)])
qed







lemma pin_field:
  assumes "(k, M) \<in> set PACKAGE_MANAGERS"
  shows "get_packageManager (packageJson_object (Descriptor M) projectName isTS)
           = Inr (if name M = ''npm'' then None else Some (JString (name M @ ''@latest'')))"
  using assms by (auto simp: in_table packageJson_object_def)

lemma own_key:
  assumes "(k, M) \<in> set PACKAGE_MANAGERS"
  shows "PACKAGE_MANAGERS_get (name M) = Some (Descriptor M)"
  using assms by (auto simp: in_table PACKAGE_MANAGERS_get_def PACKAGE_MANAGERS_def)

lemma split_on_nonempty: "split_on c s \<noteq> []"
  by (induction s) (auto split: list.splits)

lemma split_first: "CHR ''@'' \<notin> set s \<Longrightarrow> hd (split_on CHR ''@'' (s @ ''@latest'')) = s"
  by (induction s) (auto simp: split_on_nonempty split: list.splits)

lemma name_no_at: "(k, M) \<in> set PACKAGE_MANAGERS \<Longrightarrow> CHR ''@'' \<notin> set (name M)"
  by (auto simp: in_table)

lemma manifest_probe_pinned:
  assumes "(k, M) \<in> set PACKAGE_MANAGERS" "name M \<noteq> ''npm''"
      and "fs w (d @ [''package.json''])
             = Some (File (JSON_stringify (packageJson_object (Descriptor M) projectName isTS)))"
  shows "manifest_probe d w =
           (Inr (Some (Descriptor M)), w\<lparr>events := events w @ [ConsoleLog (MsgDetectedManifest (name M))]\<rparr>)"
  using assms(2,3) name_no_at[OF assms(1)]
  by (simp add: manifest_probe_def path_join_names existsSync_def prog_defs readFileSync_def
        parse_manifest_def JSON_stringify_def pin_field[OF assms(1)] split_first own_key[OF assms(1)])

lemma detect_manifest:
  assumes "no_lock_files w d" "no_config_files w d"
      and "manifest_probe d (w\<lparr>events := events w @ [Resolve d]\<rparr>) = (Inr (Some v), w1)"
  shows "detectPackageManager h (Some d) w = (Inr v, w1)"
  using assms
  by (simp add: detectPackageManager_def find_lock_none find_config_none bind_def ret_def)

lemma wf_update_dir:
  assumes "wf_fs f" "f (butlast p) = Some Dir" "p \<noteq> []"
  shows "wf_fs (f(p \<mapsto> Dir))"
  using assms unfolding wf_fs_def by auto



lemma wf_below:
  assumes "wf_fs f" "f p = None"
  shows "f (p @ cs) = None"
proof (induction cs rule: rev_induct)
  case Nil
  then show ?case using assms by simp
next
  case (snoc c cs)
  show ?case
  proof (rule ccontr)
    assume "f (p @ cs @ [c]) \<noteq> None"
    with assms(1) have "f (butlast (p @ cs @ [c])) = Some Dir"
      unfolding wf_fs_def by blast
    then show False using snoc by (simp add: butlast_append)
  qed
qed

lemma keeps_wf_ret [simp]: "keeps_wf (ret a)"
  by (simp add: keeps_wf_def ret_def)

lemma keeps_wf_lift [simp]: "keeps_wf (lift r)"
  by (simp add: keeps_wf_def lift_def)




lemma keeps_wf_try_catch: "keeps_wf m \<Longrightarrow> (\<And>e. keeps_wf (k e)) \<Longrightarrow> keeps_wf (try_catch m k)"
  unfolding keeps_wf_def try_catch_def
  by (auto split: prod.splits sum.splits)







lemma dir_chain_self: "dir_chain f p \<Longrightarrow> f p = Some Dir"
  by (simp add: dir_chain_def)

lemma dir_chain_snoc: "dir_chain f p \<Longrightarrow> f (p @ [c]) = Some Dir \<Longrightarrow> dir_chain f (p @ [c])"
  by (auto simp: dir_chain_def)

lemma dir_chain_upd_dir: "dir_chain f p \<Longrightarrow> dir_chain (f(q \<mapsto> Dir)) p"
  by (simp add: dir_chain_def)

lemma not_prefix_below [simp]: "\<not> prefix (p @ c # cs) p"
  by (simp add: prefix_def)

lemma dir_chain_upd_below: "dir_chain f p \<Longrightarrow> dir_chain (f(p @ c # cs \<mapsto> n)) p"
  by (auto simp: dir_chain_def)

lemma mkdir_walk_chain:
  "\<forall>q. prefix q p \<and> q \<noteq> [] \<longrightarrow> f (pre @ q) = Some Dir \<Longrightarrow>
   mkdir_walk h pre (p @ cs) f = mkdir_walk h (pre @ p) cs f"
proof (induction p arbitrary: pre)
  case Nil
  then show ?case by simp
next
  case (Cons a p)
  have "f (pre @ [a]) = Some Dir" using Cons.prems by simp
  moreover have "\<forall>q. prefix q p \<and> q \<noteq> [] \<longrightarrow> f ((pre @ [a]) @ q) = Some Dir"
    using Cons.prems by (auto simp: prefix_def)
  ultimately show ?case using Cons.IH[of "pre @ [a]"] by (simp add: Let_def)
qed

lemma mkdirSync_under:
  assumes "dir_chain (fs w) p"
  shows "mkdirSync h (p @ cs) w =
     (case mkdir_walk h p cs (fs w) of
        (r, f') \<Rightarrow> ((case r of None \<Rightarrow> Inr () | Some e \<Rightarrow> Inl e),
                     w\<lparr>fs := f', events := events w @ [Mkdir (p @ cs)]\<rparr>))"
proof -
  have "mkdir_walk h [] (p @ cs) (fs w) = mkdir_walk h ([] @ p) cs (fs w)"
    using assms by (intro mkdir_walk_chain) (simp add: dir_chain_def)
  then show ?thesis by (simp add: mkdirSync_def)
qed

lemma mkdirSync_existing:
  assumes "dir_chain (fs w) p"
  shows "mkdirSync h p w = (Inr (), w\<lparr>events := events w @ [Mkdir p]\<rparr>)"
  using mkdirSync_under[OF assms, of h "[]"] by simp

lemma mkdirSync_new:
  assumes "dir_chain (fs w) p" "fs w (p @ [c]) = None"
  shows "mkdirSync h (p @ [c]) w =
     (if fs_fault h (p @ [c])
      then (Inl (EACCES (p @ [c])), w\<lparr>events := events w @ [Mkdir (p @ [c])]\<rparr>)
      else (Inr (), w\<lparr>fs := (fs w)(p @ [c] \<mapsto> Dir), events := events w @ [Mkdir (p @ [c])]\<rparr>))"
  using assms(2) by (simp add: mkdirSync_under[OF assms(1)] Let_def)

lemma mkdirSync_new2:
  assumes "dir_chain (fs w) (p @ [a])" "fs w (p @ [a, c]) = None"
  shows "mkdirSync h (p @ [a, c]) w =
     (if fs_fault h (p @ [a, c])
      then (Inl (EACCES (p @ [a, c])), w\<lparr>events := events w @ [Mkdir (p @ [a, c])]\<rparr>)
      else (Inr (), w\<lparr>fs := (fs w)(p @ [a, c] \<mapsto> Dir), events := events w @ [Mkdir (p @ [a, c])]\<rparr>))"
  using mkdirSync_new[OF assms(1), of c h] assms(2) by simp

lemma dir_chain_upd: "dir_chain f p \<Longrightarrow> \<not> prefix q p \<Longrightarrow> dir_chain (f(q \<mapsto> n)) p"
  by (auto simp: dir_chain_def)

lemmas chain_simps = dir_chain_snoc dir_chain_upd_dir dir_chain_upd mkdirSync_new mkdirSync_new2
  mkdirSync_existing

lemma createProjectStructure_success:
  assumes "dir_chain (fs w) p" "\<And>cs. cs \<noteq> [] \<Longrightarrow> fs w (p @ cs) = None"
      and "createProjectStructure h p options w = (Inr (), w')"
  shows "w' = w\<lparr>fs := (fs w)(p @ [''src''] \<mapsto> Dir, p @ [''src'', ''routes''] \<mapsto> Dir,
                         p @ [''src'', ''middleware''] \<mapsto> Dir, p @ [''src'', ''utils''] \<mapsto> Dir,
                         p @ [''public''] \<mapsto> Dir),
                events := events w @ [Mkdir (p @ [''src'']), Mkdir (p @ [''src'', ''routes'']),
                         Mkdir (p @ [''src'', ''middleware'']), Mkdir (p @ [''src'', ''utils'']),
                         Mkdir (p @ [''public''])]\<rparr>"
  using assms(3)
  by (simp add: createProjectStructure_def path_join_names seq_def bind_def ret_def chain_simps assms(1,2)
       split: if_splits)

lemma writeFileSync_new:
  assumes "fs w (butlast q) = Some Dir" "q \<noteq> []" "fs w q \<noteq> Some Dir"
  shows "writeFileSync h q c w =
     (if fs_fault h q
      then (Inl (EACCES q), w\<lparr>events := events w @ [WriteFile q c]\<rparr>)
      else (Inr (), w\<lparr>fs := (fs w)(q \<mapsto> File c), events := events w @ [WriteFile q c]\<rparr>))"
  using assms by (auto simp: writeFileSync_def Let_def split: option.splits node.splits)

lemma copyTemplateFiles_success:
  assumes "dir_chain (fs w) p" "fs w (p @ [''src'']) = Some Dir"
      and "fs w (p @ [''src'', ''index.ts'']) = None" "fs w (p @ [''src'', ''index.js'']) = None"
      and "fs w (p @ [''README.md'']) = None" "fs w (p @ [''.gitignore'']) = None"
      and "fs w (p @ [''tsconfig.json'']) = None"
      and "copyTemplateFiles h p template useJS w = (Inr (), w')"
  shows "w' = (if flag_set useJS
               then w\<lparr>fs := (fs w)(p @ [''src'', ''index.js''] \<mapsto> File (Template (MainTemplate False)),
                                   p @ [''README.md''] \<mapsto> File (Template ReadmeTemplate),
                                   p @ [''.gitignore''] \<mapsto> File (Template GitignoreTemplate)),
                       events := events w @
                         [Mkdir (p @ [''src'']),
                          WriteFile (p @ [''src'', ''index.js'']) (Template (MainTemplate False)),
                          Mkdir p, WriteFile (p @ [''README.md'']) (Template ReadmeTemplate),
                          Mkdir p, WriteFile (p @ [''.gitignore'']) (Template GitignoreTemplate)]\<rparr>
               else w\<lparr>fs := (fs w)(p @ [''src'', ''index.ts''] \<mapsto> File (Template (MainTemplate True)),
                                   p @ [''README.md''] \<mapsto> File (Template ReadmeTemplate),
                                   p @ [''.gitignore''] \<mapsto> File (Template GitignoreTemplate),
                                   p @ [''tsconfig.json''] \<mapsto> File (Template TsConfigTemplate)),
                       events := events w @
                         [Mkdir (p @ [''src'']),
                          WriteFile (p @ [''src'', ''index.ts'']) (Template (MainTemplate True)),
                          Mkdir p, WriteFile (p @ [''README.md'']) (Template ReadmeTemplate),
                          Mkdir p, WriteFile (p @ [''.gitignore'']) (Template GitignoreTemplate),
                          Mkdir p, WriteFile (p @ [''tsconfig.json'']) (Template TsConfigTemplate)]\<rparr>)"
  using assms(8)
  by (simp add: copyTemplateFiles_def getTemplateFiles_def path_join_names path_dirname_def
        seq_def bind_def ret_def chain_simps writeFileSync_new butlast_append
        assms(1-7) dir_chain_self[OF assms(1)] Let_def split: if_splits)

lemma find_preferred_in:
  "find_preferred xs ps = Some pm \<Longrightarrow> \<exists>k. (k, pm) \<in> set xs"
proof (induction ps)
  case Nil
  then show ?case by simp
next
  case (Cons a ps)
  then show ?case
    by (auto simp: find_Some_iff split: option.splits) (metis nth_mem prod.collapse)
qed

lemma fallback_manager_in_table: "\<exists>k. (k, fallback_manager h) \<in> set PACKAGE_MANAGERS"
proof (cases "find_preferred (ran h PACKAGE_MANAGERS) preferenceOrder")
  case None
  then show ?thesis by (auto simp: fallback_manager_def in_table)
next
  case (Some pm)
  from find_preferred_in[OF this] obtain k where "(k, pm) \<in> set (ran h PACKAGE_MANAGERS)" by blast
  then have "(k, pm) \<in> set PACKAGE_MANAGERS" by (simp add: ran_def)
  with Some show ?thesis by (auto simp: fallback_manager_def)
qed

lemma env_probe_cases:
  "env_probe w = None \<or> env_probe w = Some pnpm \<or> env_probe w = Some yarn \<or> env_probe w = Some bun"
  unfolding env_probe_def
  by (cases "npm_config_user_agent w") (simp_all del: str_includes.simps)

lemma late_probes_in_table: "\<exists>k. (k, late_probes h w) \<in> set PACKAGE_MANAGERS"
  using env_probe_cases[of w]
proof (elim disjE)
  assume "env_probe w = None"
  then show ?thesis using fallback_manager_in_table[of h] by (simp add: late_probes_def)
next
  assume "env_probe w = Some pnpm"
  then have "(''pnpm'', late_probes h w) \<in> set PACKAGE_MANAGERS"
    by (simp add: late_probes_def PACKAGE_MANAGERS_def)
  then show ?thesis ..
next
  assume "env_probe w = Some yarn"
  then have "(''yarn'', late_probes h w) \<in> set PACKAGE_MANAGERS"
    by (simp add: late_probes_def PACKAGE_MANAGERS_def)
  then show ?thesis ..
next
  assume "env_probe w = Some bun"
  then have "(''bun'', late_probes h w) \<in> set PACKAGE_MANAGERS"
    by (simp add: late_probes_def PACKAGE_MANAGERS_def)
  then show ?thesis ..
qed

lemma late_events_frame [simp]:
  "late_events h (w\<lparr>events := es\<rparr>) = late_events h w"
  "late_events h (w\<lparr>fs := f\<rparr>) = late_events h w"
  "late_probes h (w\<lparr>events := es\<rparr>) = late_probes h w"
  "late_probes h (w\<lparr>fs := f\<rparr>) = late_probes h w"
  by (simp_all add: late_events_def late_probes_def env_probe_def split: option.splits)

lemma no_signals_frame [simp]:
  "no_lock_files (w\<lparr>events := es\<rparr>) d = no_lock_files w d"
  "no_config_files (w\<lparr>events := es\<rparr>) d = no_config_files w d"
  by (simp_all add: no_lock_files_def no_config_files_def)

lemma createPackageJson_success:
  assumes "no_lock_files w p" "no_config_files w p" "fs w (p @ [''package.json'']) = None"
      and "fs w p = Some Dir"
      and "createPackageJson h p projectName options w = (Inr (), w')"
  shows "w' = w\<lparr>fs := (fs w)(p @ [''package.json''] \<mapsto>
                     File (JSON_stringify (packageJson_object (Descriptor (late_probes h w)) projectName
                                             (\<not> flag_set (javascript options))))),
                events := events w @ Resolve p # late_events h w @
                   [WriteFile (p @ [''package.json''])
                      (JSON_stringify (packageJson_object (Descriptor (late_probes h w)) projectName
                                             (\<not> flag_set (javascript options))))]\<rparr>"
  using assms(5)
  by (simp add: createPackageJson_def bind_def detect_fresh[OF assms(1-3)] path_join_names
        writeFileSync_new butlast_append assms(3,4) Let_def split: if_splits)

lemma name_npm: "(k, M) \<in> set PACKAGE_MANAGERS \<Longrightarrow> name M = ''npm'' \<longleftrightarrow> M = npm"
  by (auto simp: in_table)

lemma manifest_probe_unpinned:
  assumes "fs w (d @ [''package.json''])
             = Some (File (JSON_stringify (packageJson_object (Descriptor npm) projectName isTS)))"
  shows "manifest_probe d w = (Inr None, w)"
  using assms
  by (simp add: manifest_probe_def path_join_names existsSync_def prog_defs readFileSync_def
        parse_manifest_def JSON_stringify_def packageJson_object_def)

lemma detect_again:
  assumes "no_lock_files w d" "no_config_files w d"
      and "fs w (d @ [''package.json''])
             = Some (File (JSON_stringify (packageJson_object (Descriptor (late_probes h w)) projectName isTS)))"
  shows "detectPackageManager h (Some d) w =
           (Inr (Descriptor (late_probes h w)),
            w\<lparr>events := events w @ Resolve d #
                 (if late_probes h w = npm then late_events h w
                  else [ConsoleLog (MsgDetectedManifest (name (late_probes h w)))])\<rparr>)"
proof -
  obtain k where k: "(k, late_probes h w) \<in> set PACKAGE_MANAGERS"
    using late_probes_in_table by blast
  let ?w0 = "w\<lparr>events := events w @ [Resolve d]\<rparr>"
  show ?thesis
  proof (cases "late_probes h w = npm")
    case True
    with assms(3) have "manifest_probe d ?w0 = (Inr None, ?w0)"
      by (intro manifest_probe_unpinned[where projectName = projectName and isTS = isTS]) simp
    from detect_late[OF assms(1,2) this, of h] True show ?thesis by simp
  next
    case False
    then have n: "name (late_probes h w) \<noteq> ''npm''" using name_npm[OF k] by simp
    have "manifest_probe d ?w0 =
            (Inr (Some (Descriptor (late_probes h w))),
             ?w0\<lparr>events := events ?w0 @ [ConsoleLog (MsgDetectedManifest (name (late_probes h w)))]\<rparr>)"
      using assms(3) by (intro manifest_probe_pinned[OF k n, where projectName = projectName and isTS = isTS]) simp
    from detect_manifest[OF assms(1,2) this, of h] False show ?thesis by simp
  qed
qed

lemma installDependencies_eq:
  assumes "fs w p = Some Dir" "install h c p (fs w) = (ok, f')" "pm_installCommand v = Some c"
  shows "installDependencies h v p w =
           (let w1 = w\<lparr>fs := f', events := events w @ [ConsoleLog (MsgInstalling (js_string (pm_name v))),
                                                          Chdir p, Exec c p, Chdir (cwd w)]\<rparr>
            in case f' (cwd w) of
                 Some Dir \<Rightarrow> ((if ok then Inr () else Inl (CommandFailed c)), w1)
               | Some (File x) \<Rightarrow> (Inl (ENOTDIR (cwd w)), w1\<lparr>cwd := p\<rparr>)
               | None \<Rightarrow> (Inl (ENOENT (cwd w)), w1\<lparr>cwd := p\<rparr>))"
  using assms
  by (simp add: installDependencies_def seq_def bind_def emit_def chdir_def try_finally_def
        execSync_def Let_def split: option.splits node.splits)

lemma manifest_probe_state:
  "\<exists>es. snd (manifest_probe d w) = w\<lparr>events := events w @ es\<rparr> \<and> (\<forall>e \<in> set es. \<exists>m. e = ConsoleLog m)"
proof (cases "existsSync w (path_join d ''package.json'')")
  case False
  then have "snd (manifest_probe d w) = w\<lparr>events := events w @ []\<rparr>"
    by (simp add: manifest_probe_def ret_def)
  then show ?thesis by (intro exI[of _ "[]"]) simp
next
  case True
  let ?body = "bind (readFileSync (path_join d ''package.json'')) (\<lambda>text.
              bind (lift (parse_manifest text)) (\<lambda>packageJson.
              bind (lift (get_packageManager packageJson)) (\<lambda>field.
                case field of
                  None \<Rightarrow> ret None
                | Some v \<Rightarrow>
                    if truthy v
                    then bind (lift (js_split v CHR ''@'')) (\<lambda>parts.
                           let pmName = hd parts in
                           case PACKAGE_MANAGERS_get pmName of
                             Some found \<Rightarrow>
                               seq (emit (ConsoleLog (MsgDetectedManifest pmName)))
                                   (ret (Some found))
                           | None \<Rightarrow> ret None)
                    else ret None)))"
  have "snd (?body w) = w \<or> (\<exists>m. snd (?body w) = w\<lparr>events := events w @ [ConsoleLog m]\<rparr>)"
    by (auto simp: prog_defs readFileSync_def Let_def
             split: option.splits node.splits sum.splits prod.splits)
  then have "snd (manifest_probe d w) = w \<or> (\<exists>m. snd (manifest_probe d w) = w\<lparr>events := events w @ [ConsoleLog m]\<rparr>)"
    using True by (auto simp: manifest_probe_def try_catch_def ret_def split: prod.splits sum.splits)
  then show ?thesis
  proof
    assume "snd (manifest_probe d w) = w"
    then have "snd (manifest_probe d w) = w\<lparr>events := events w @ []\<rparr>" by simp
    then show ?thesis by (intro exI[of _ "[]"]) simp
  next
    assume "\<exists>m. snd (manifest_probe d w) = w\<lparr>events := events w @ [ConsoleLog m]\<rparr>"
    then obtain m where "snd (manifest_probe d w) = w\<lparr>events := events w @ [ConsoleLog m]\<rparr>" ..
    then show ?thesis by (intro exI[of _ "[ConsoleLog m]"]) simp
  qed
qed

lemma detect_state:
  "\<exists>es. snd (detectPackageManager h projectPath w)
          = w\<lparr>events := events w @ Resolve (case projectPath of Some p \<Rightarrow> p | None \<Rightarrow> cwd w) # es\<rparr>
      \<and> (\<forall>e \<in> set es. (\<exists>m. e = ConsoleLog m) \<or> (\<exists>c q. e = Exec c q))"
proof -
  define d where "d = (case projectPath of Some p \<Rightarrow> p | None \<Rightarrow> cwd w)"
  define w0 where "w0 = w\<lparr>events := events w @ [Resolve d]\<rparr>"
  have unfold: "detectPackageManager h projectPath w =
      (case find_lock w d PACKAGE_MANAGERS of
           Some pm \<Rightarrow>
             seq (emit (ConsoleLog (MsgDetectedLock (name pm) (lockFile pm))))
                 (ret (Descriptor pm)) w0
         | None \<Rightarrow>
            (case find_config w d PACKAGE_MANAGERS of
               Some (pm, cf) \<Rightarrow>
                 seq (emit (ConsoleLog (MsgDetectedConfig (name pm) cf)))
                     (ret (Descriptor pm)) w0
             | None \<Rightarrow>
                 bind (manifest_probe d) (\<lambda>fromManifest.
                   case fromManifest of
                     Some found \<Rightarrow> ret found
                   | None \<Rightarrow>
                       (\<lambda>w1. case env_probe w1 of
                                Some pm \<Rightarrow> ret (Descriptor pm) w1
                              | None \<Rightarrow> availability_probe h w1)) w0))"
    by (simp only: detectPackageManager_def Let_def d_def w0_def find_lock_events find_config_events)
  obtain r w1 where mp: "manifest_probe d w0 = (Inr r, w1)"
    using manifest_probe_total by blast
  have mp': "manifest_probe d (w\<lparr>events := events w @ [Resolve d]\<rparr>) = (Inr r, w1)"
    using mp by (simp add: w0_def)
  obtain es1 where es1: "w1 = w0\<lparr>events := events w0 @ es1\<rparr>" "\<forall>e \<in> set es1. \<exists>m. e = ConsoleLog m"
    using manifest_probe_state[of d w0] mp by auto
  have shape: "\<And>es. \<forall>e \<in> set es. (\<exists>m. e = ConsoleLog m) \<or> (\<exists>c q. e = Exec c q) \<Longrightarrow>
          snd (detectPackageManager h projectPath w) = w\<lparr>events := events w @ Resolve d # es\<rparr> \<Longrightarrow> ?thesis"
    unfolding d_def by blast
  show ?thesis
  proof (cases "find_lock w d PACKAGE_MANAGERS")
    case (Some pm)
    show ?thesis
      by (rule shape[of "[ConsoleLog (MsgDetectedLock (name pm) (lockFile pm))]"])
         (simp_all add: unfold Some seq_def bind_def emit_def ret_def w0_def)
  next
    case None
    note lock = this
    show ?thesis
    proof (cases "find_config w d PACKAGE_MANAGERS")
      case (Some a)
      obtain pm cf where a: "a = (pm, cf)" by (cases a)
      show ?thesis
        by (rule shape[of "[ConsoleLog (MsgDetectedConfig (name pm) cf)]"])
           (simp_all add: unfold lock Some a seq_def bind_def emit_def ret_def w0_def)
    next
      case None
      note config = this
      show ?thesis
      proof (cases r)
        case (Some found)
        show ?thesis
          by (rule shape[of es1])
             (use es1 in \<open>simp_all add: unfold lock config bind_def mp' Some ret_def w0_def\<close>)
      next
        case None
        note manifest = this
        show ?thesis
        proof (cases "env_probe w")
          case (Some pm)
          show ?thesis
            by (rule shape[of es1])
               (use es1 in \<open>simp_all add: unfold lock config bind_def mp' manifest Some ret_def w0_def\<close>)
        next
          case None
          show ?thesis
            by (rule shape[of "es1 @ version_events (cwd w1) PACKAGE_MANAGERS @
                  [ConsoleLog (case find_preferred (ran h PACKAGE_MANAGERS) preferenceOrder of
                         Some pm \<Rightarrow> MsgUsingAvailable (name pm) | None \<Rightarrow> MsgFallback)]"])
               (use es1 in \<open>auto simp add: unfold lock config bind_def mp' manifest None
                   availability_probe_eq w0_def version_events_def\<close>)
        qed
      qed
    qed
  qed
qed

lemma detect_fs [simp]: "fs (snd (detectPackageManager h projectPath w)) = fs w"
  using detect_state[of h projectPath w] by auto


lemma emits_onlyI:
  "(\<And>w. \<exists>es. events (snd (m w)) = events w @ es \<and> (\<forall>e \<in> set es. Q e)) \<Longrightarrow> emits_only Q m"
  by (simp add: emits_only_def)

lemma emits_onlyD:
  assumes "emits_only Q m" "m w = (r, w')"
  obtains es where "events w' = events w @ es" "\<forall>e \<in> set es. Q e"
  using assms unfolding emits_only_def by (metis snd_conv)

lemma emits_only_ret [simp]: "emits_only Q (ret a)"
  by (simp add: emits_only_def ret_def)

lemma emits_only_lift [simp]: "emits_only Q (lift r)"
  by (simp add: emits_only_def lift_def)

lemma emits_only_emit: "Q e \<Longrightarrow> emits_only Q (emit e)"
  by (simp add: emits_only_def emit_def)

lemma emits_only_bind:
  assumes "emits_only Q m" "\<And>a. emits_only Q (k a)"
  shows "emits_only Q (bind m k)"
proof (rule emits_onlyI)
  fix w
  obtain r w1 where mw: "m w = (r, w1)" by (cases "m w")
  from emits_onlyD[OF assms(1) mw] obtain es1
    where es1: "events w1 = events w @ es1" "\<forall>e \<in> set es1. Q e" by blast
  show "\<exists>es. events (snd (bind m k w)) = events w @ es \<and> (\<forall>e \<in> set es. Q e)"
  proof (cases r)
    case (Inl e)
    then show ?thesis using mw es1 by (auto simp: bind_def)
  next
    case (Inr a)
    obtain r2 w2 where kw: "k a w1 = (r2, w2)" by (cases "k a w1")
    from emits_onlyD[OF assms(2) kw] obtain es2
      where es2: "events w2 = events w1 @ es2" "\<forall>e \<in> set es2. Q e" by blast
    have "events (snd (bind m k w)) = events w @ (es1 @ es2)"
      using mw Inr kw es1 es2 by (simp add: bind_def)
    moreover have "\<forall>e \<in> set (es1 @ es2). Q e" using es1 es2 by auto
    ultimately show ?thesis by blast
  qed
qed

lemma emits_only_seq: "emits_only Q m \<Longrightarrow> emits_only Q k \<Longrightarrow> emits_only Q (seq m k)"
  by (simp add: seq_def emits_only_bind)

lemma emits_only_try_catch:
  assumes "emits_only Q m" "\<And>e. emits_only Q (k e)"
  shows "emits_only Q (try_catch m k)"
proof (rule emits_onlyI)
  fix w
  obtain r w1 where mw: "m w = (r, w1)" by (cases "m w")
  from emits_onlyD[OF assms(1) mw] obtain es1
    where es1: "events w1 = events w @ es1" "\<forall>e \<in> set es1. Q e" by blast
  show "\<exists>es. events (snd (try_catch m k w)) = events w @ es \<and> (\<forall>e \<in> set es. Q e)"
  proof (cases r)
    case (Inr a)
    then show ?thesis using mw es1 by (auto simp: try_catch_def)
  next
    case (Inl e)
    obtain r2 w2 where kw: "k e w1 = (r2, w2)" by (cases "k e w1")
    from emits_onlyD[OF assms(2) kw] obtain es2
      where es2: "events w2 = events w1 @ es2" "\<forall>e \<in> set es2. Q e" by blast
    have "events (snd (try_catch m k w)) = events w @ (es1 @ es2)"
      using mw Inl kw es1 es2 by (simp add: try_catch_def)
    moreover have "\<forall>e \<in> set (es1 @ es2). Q e" using es1 es2 by auto
    ultimately show ?thesis by blast
  qed
qed

lemma emits_only_try_finally:
  assumes "emits_only Q m" "emits_only Q k"
  shows "emits_only Q (try_finally m k)"
proof (rule emits_onlyI)
  fix w
  obtain r w1 where mw: "m w = (r, w1)" by (cases "m w")
  from emits_onlyD[OF assms(1) mw] obtain es1
    where es1: "events w1 = events w @ es1" "\<forall>e \<in> set es1. Q e" by blast
  obtain r2 w2 where kw: "k w1 = (r2, w2)" by (cases "k w1")
  from emits_onlyD[OF assms(2) kw] obtain es2
    where es2: "events w2 = events w1 @ es2" "\<forall>e \<in> set es2. Q e" by blast
  have "events (snd (try_finally m k w)) = events w @ (es1 @ es2)"
    using mw kw es1 es2 by (cases r2) (simp_all add: try_finally_def)
  moreover have "\<forall>e \<in> set (es1 @ es2). Q e" using es1 es2 by auto
  ultimately show "\<exists>es. events (snd (try_finally m k w)) = events w @ es \<and> (\<forall>e \<in> set es. Q e)"
    by blast
qed

lemma emits_only_forEach: "(\<And>x. x \<in> set xs \<Longrightarrow> emits_only Q (body x)) \<Longrightarrow> emits_only Q (forEach xs body)"
  by (induction xs) (simp_all add: emits_only_seq)

lemma emits_only_mkdirSync: "Q (Mkdir p) \<Longrightarrow> emits_only Q (mkdirSync h p)"
  by (rule emits_onlyI) (simp add: mkdirSync_def split: prod.splits)

lemma emits_only_writeFileSync: "Q (WriteFile p c) \<Longrightarrow> emits_only Q (writeFileSync h p c)"
  by (rule emits_onlyI) (auto simp: writeFileSync_def Let_def split: option.splits node.splits)

lemma emits_only_chdir: "Q (Chdir p) \<Longrightarrow> emits_only Q (chdir p)"
  by (rule emits_onlyI) (auto simp: chdir_def Let_def split: option.splits node.splits)

lemma emits_only_execSync: "(\<And>c d. Q (Exec c d)) \<Longrightarrow> emits_only Q (execSync h command)"
  by (rule emits_onlyI) (auto simp: execSync_def split: option.splits prod.splits)

lemma emits_only_detect:
  assumes "Q (Resolve p)" "\<And>m. Q (ConsoleLog m)" "\<And>c d. Q (Exec c d)"
  shows "emits_only Q (detectPackageManager h (Some p))"
proof (rule emits_onlyI)
  fix w
  from detect_state[of h "Some p" w] obtain es
    where es: "snd (detectPackageManager h (Some p) w) = w\<lparr>events := events w @ Resolve p # es\<rparr>"
              "\<forall>e \<in> set es. (\<exists>m. e = ConsoleLog m) \<or> (\<exists>c q. e = Exec c q)"
    by auto
  have "\<forall>e \<in> set (Resolve p # es). Q e" using es(2) assms by auto
  with es(1) show "\<exists>es. events (snd (detectPackageManager h (Some p) w)) = events w @ es \<and> (\<forall>e \<in> set es. Q e)"
    by (intro exI[of _ "Resolve p # es"]) simp
qed

lemma emits_only_installDependencies:
  assumes "\<And>m. Q (ConsoleLog m)" "\<And>c d. Q (Exec c d)" "\<And>d. Q (Chdir d)"
  shows "emits_only Q (installDependencies h v p)"
  unfolding installDependencies_def
  by (intro emits_only_seq emits_only_emit assms emits_onlyI)
     (use emits_only_seq[OF emits_only_chdir[of Q p] emits_only_try_finally[OF emits_only_execSync[of Q h] emits_only_chdir[of Q]], unfolded emits_only_def] assms
      in \<open>simp add: Let_def\<close>)



lemma seq_Inr:
  assumes "seq m k w = (Inr b, w')"
  obtains w1 where "m w = (Inr (), w1)" "k w1 = (Inr b, w')"
  using assms by (auto simp: seq_def bind_def split: prod.splits sum.splits)

lemma bind_Inr:
  assumes "bind m k w = (Inr b, w')"
  obtains a w1 where "m w = (Inr a, w1)" "k a w1 = (Inr b, w')"
  using assms by (auto simp: bind_def split: prod.splits sum.splits)

lemma installDependencies_success:
  assumes "installDependencies h (Descriptor pm) p w = (Inr (), w')" "fs w p = Some Dir"
  shows "fst (install h (installCommand pm) p (fs w))
       \<and> w' = w\<lparr>fs := snd (install h (installCommand pm) p (fs w)),
                 events := events w @ [ConsoleLog (MsgInstalling (name pm)), Chdir p,
                                        Exec (installCommand pm) p, Chdir (cwd w)]\<rparr>"
proof -
  obtain ok f' where i: "install h (installCommand pm) p (fs w) = (ok, f')"
    by (cases "install h (installCommand pm) p (fs w)")
  have c: "pm_installCommand (Descriptor pm) = Some (installCommand pm)" by simp
  show ?thesis
    using assms(1) unfolding installDependencies_eq[OF assms(2) i c]
    by (simp add: i Let_def split: option.splits node.splits if_splits)
qed

lemma create_steps_success:
  assumes chain: "dir_chain (fs w) p" and fresh: "\<And>cs. cs \<noteq> [] \<Longrightarrow> fs w (p @ cs) = None"
      and run: "create_steps h p projectName options w = (Inr (), w')"
  shows "fst (install h (installCommand (late_probes h w)) p
                (project_fs (fs w) p projectName (flag_set (javascript options)) (late_probes h w)))
       \<and> w' = w\<lparr>fs := snd (install h (installCommand (late_probes h w)) p
                (project_fs (fs w) p projectName (flag_set (javascript options)) (late_probes h w))),
                 events := events w @ project_events h w p projectName (flag_set (javascript options))\<rparr>"
proof -
  let ?js = "flag_set (javascript options)"
  let ?D = "late_probes h w"
  from run obtain w1 where s1: "createProjectStructure h p options w = (Inr (), w1)"
    and r1: "seq (copyTemplateFiles h p ''basic'' (javascript options))
    (seq (createPackageJson h p projectName options)
    (bind (detectPackageManager h (Some p)) (\<lambda>packageManager.
     seq (installDependencies h packageManager p)
    (seq (emit (ConsoleLog MsgSuccess))
         (let runCmd = pm_runCommand packageManager in
          emit (ConsoleLog (MsgQuickStart projectName (js_string runCmd)))))))) w1 = (Inr (), w')"
    unfolding create_steps_def by (rule seq_Inr)
  from r1 obtain w2 where s2: "copyTemplateFiles h p ''basic'' (javascript options) w1 = (Inr (), w2)"
    and r2: "seq (createPackageJson h p projectName options)
    (bind (detectPackageManager h (Some p)) (\<lambda>packageManager.
     seq (installDependencies h packageManager p)
    (seq (emit (ConsoleLog MsgSuccess))
         (let runCmd = pm_runCommand packageManager in
          emit (ConsoleLog (MsgQuickStart projectName (js_string runCmd))))))) w2 = (Inr (), w')"
    by (rule seq_Inr)
  from r2 obtain w3 where s3: "createPackageJson h p projectName options w2 = (Inr (), w3)"
    and r3: "bind (detectPackageManager h (Some p)) (\<lambda>packageManager.
     seq (installDependencies h packageManager p)
    (seq (emit (ConsoleLog MsgSuccess))
         (let runCmd = pm_runCommand packageManager in
          emit (ConsoleLog (MsgQuickStart projectName (js_string runCmd)))))) w3 = (Inr (), w')"
    by (rule seq_Inr)
  note w1 = createProjectStructure_success[OF chain fresh s1]
  have chain1: "dir_chain (fs w1) p"
    by (simp add: w1 chain dir_chain_upd_dir)
  have w2a: "w2 = (if ?js
               then w1\<lparr>fs := (fs w1)(p @ [''src'', ''index.js''] \<mapsto> File (Template (MainTemplate False)),
                                   p @ [''README.md''] \<mapsto> File (Template ReadmeTemplate),
                                   p @ [''.gitignore''] \<mapsto> File (Template GitignoreTemplate)),
                       events := events w1 @
                         [Mkdir (p @ [''src'']),
                          WriteFile (p @ [''src'', ''index.js'']) (Template (MainTemplate False)),
                          Mkdir p, WriteFile (p @ [''README.md'']) (Template ReadmeTemplate),
                          Mkdir p, WriteFile (p @ [''.gitignore'']) (Template GitignoreTemplate)]\<rparr>
               else w1\<lparr>fs := (fs w1)(p @ [''src'', ''index.ts''] \<mapsto> File (Template (MainTemplate True)),
                                   p @ [''README.md''] \<mapsto> File (Template ReadmeTemplate),
                                   p @ [''.gitignore''] \<mapsto> File (Template GitignoreTemplate),
                                   p @ [''tsconfig.json''] \<mapsto> File (Template TsConfigTemplate)),
                       events := events w1 @
                         [Mkdir (p @ [''src'']),
                          WriteFile (p @ [''src'', ''index.ts'']) (Template (MainTemplate True)),
                          Mkdir p, WriteFile (p @ [''README.md'']) (Template ReadmeTemplate),
                          Mkdir p, WriteFile (p @ [''.gitignore'']) (Template GitignoreTemplate),
                          Mkdir p, WriteFile (p @ [''tsconfig.json'']) (Template TsConfigTemplate)]\<rparr>)"
    by (rule copyTemplateFiles_success[OF chain1 _ _ _ _ _ _ s2]) (simp_all add: w1 fresh)
  have w2: "fs w2 = (let g = fs w1 in
              if ?js then g(p @ [''src'', ''index.js''] \<mapsto> File (Template (MainTemplate False)),
                       p @ [''README.md''] \<mapsto> File (Template ReadmeTemplate),
                       p @ [''.gitignore''] \<mapsto> File (Template GitignoreTemplate))
                else g(p @ [''src'', ''index.ts''] \<mapsto> File (Template (MainTemplate True)),
                       p @ [''README.md''] \<mapsto> File (Template ReadmeTemplate),
                       p @ [''.gitignore''] \<mapsto> File (Template GitignoreTemplate),
                       p @ [''tsconfig.json''] \<mapsto> File (Template TsConfigTemplate)))"
    and e2: "events w2 = events w @ scaffold_events p ?js"
    and c2: "cwd w2 = cwd w" "late_probes h w2 = ?D" "late_events h w2 = late_events h w"
    by (simp_all add: w2a w1 scaffold_events_def Let_def)
  have nl: "no_lock_files w2 p"
    by (simp add: no_lock_files_def PACKAGE_MANAGERS_def w2 w1 fresh Let_def)
  have nc: "no_config_files w2 p"
    by (simp add: no_config_files_def PACKAGE_MANAGERS_def w2 w1 fresh Let_def)
  have np: "fs w2 (p @ [''package.json'']) = None"
    by (simp add: w2 w1 fresh Let_def)
  have d2: "fs w2 p = Some Dir"
    using dir_chain_self[OF chain] by (simp add: w2 w1 Let_def)
  note w3 = createPackageJson_success[OF nl nc np d2 s3]
  have f3: "fs w3 = project_fs (fs w) p projectName ?js ?D"
    by (simp add: w3 c2 w2 w1 project_fs_def Let_def)
  have nl3: "no_lock_files w3 p"
    using nl by (simp add: w3 no_lock_files_def PACKAGE_MANAGERS_def)
  have nc3: "no_config_files w3 p"
    using nc by (simp add: w3 no_config_files_def PACKAGE_MANAGERS_def)
  have lp3: "late_probes h w3 = ?D" "late_events h w3 = late_events h w" "cwd w3 = cwd w"
    by (simp_all add: w3 c2)
  have m3: "fs w3 (p @ [''package.json''])
             = Some (File (JSON_stringify (packageJson_object (Descriptor (late_probes h w3)) projectName (\<not> ?js))))"
    by (simp add: lp3) (simp add: w3 c2)
  note det = detect_again[OF nl3 nc3 m3, unfolded lp3]
  from r3 obtain w4 where r4: "seq (installDependencies h (Descriptor ?D) p)
    (seq (emit (ConsoleLog MsgSuccess))
         (let runCmd = pm_runCommand (Descriptor ?D) in
          emit (ConsoleLog (MsgQuickStart projectName (js_string runCmd))))) w4 = (Inr (), w')"
    and w4: "w4 = w3\<lparr>events := events w3 @ Resolve p #
                 (if ?D = npm then late_events h w
                  else [ConsoleLog (MsgDetectedManifest (name ?D))])\<rparr>"
    by (auto simp: bind_def det)
  from r4 obtain w5 where s5: "installDependencies h (Descriptor ?D) p w4 = (Inr (), w5)"
    and r5: "seq (emit (ConsoleLog MsgSuccess))
         (let runCmd = pm_runCommand (Descriptor ?D) in
          emit (ConsoleLog (MsgQuickStart projectName (js_string runCmd)))) w5 = (Inr (), w')"
    by (rule seq_Inr)
  have d4: "fs w4 p = Some Dir"
    using d2 by (simp add: w4 w3)
  note w5 = installDependencies_success[OF s5 d4]
  have f4: "fs w4 = project_fs (fs w) p projectName ?js ?D"
    using f3 by (simp add: w4)
  have e4: "events w4 = events w @ scaffold_events p ?js @ Resolve p # late_events h w
      @ [WriteFile (p @ [''package.json''])
           (JSON_stringify (packageJson_object (Descriptor ?D) projectName (\<not> ?js)))]
      @ Resolve p # (if ?D = npm then late_events h w
                     else [ConsoleLog (MsgDetectedManifest (name ?D))])"
    by (simp add: w4 w3 e2 c2)
  have c4: "cwd w4 = cwd w" by (simp add: w4 lp3)
  have w': "w' = w5\<lparr>events := events w5 @ [ConsoleLog MsgSuccess,
                   ConsoleLog (MsgQuickStart projectName (runCommand ?D))]\<rparr>"
    using r5 by (simp add: seq_def bind_def emit_def Let_def)
  have inst: "fst (install h (installCommand ?D) p (project_fs (fs w) p projectName ?js ?D))"
    using w5 by (simp add: f4)
  have "fs w' = snd (install h (installCommand ?D) p (project_fs (fs w) p projectName ?js ?D))"
    using conjunct2[OF w5] by (simp add: w' f4)
  moreover have "events w' = events w @ project_events h w p projectName ?js"
    using conjunct2[OF w5] by (simp add: w' e4 c4 project_events_def Let_def)
  moreover have "cwd w' = cwd w" "npm_config_user_agent w' = npm_config_user_agent w"
    using conjunct2[OF w5] by (simp_all add: w' w4 w3 w2a w1)
  ultimately have "w' = w\<lparr>fs := snd (install h (installCommand ?D) p (project_fs (fs w) p projectName ?js ?D)),
                 events := events w @ project_events h w p projectName ?js\<rparr>"
    by (intro world.equality) simp_all
  with inst show ?thesis by simp
qed

lemma mkdir_walk_keeps:
  "f q = Some n \<Longrightarrow> snd (mkdir_walk h pre cs f) q = Some n"
proof (induction cs arbitrary: pre f)
  case Nil
  then show ?case by simp
next
  case (Cons c cs)
  show ?case
  proof (cases "f (pre @ [c])")
    case None
    show ?thesis
    proof (cases "fs_fault h (pre @ [c])")
      case True
      with None Cons.prems show ?thesis by (simp add: Let_def)
    next
      case False
      with None have step: "mkdir_walk h pre (c # cs) f = mkdir_walk h (pre @ [c]) cs (f(pre @ [c] \<mapsto> Dir))"
        by (simp add: Let_def)
      from None have "q \<noteq> pre @ [c]" using Cons.prems by auto
      then have "(f(pre @ [c] \<mapsto> Dir)) q = Some n" using Cons.prems by simp
      then have "snd (mkdir_walk h (pre @ [c]) cs (f(pre @ [c] \<mapsto> Dir))) q = Some n"
        by (rule Cons.IH)
      then show ?thesis by (simp only: step)
    qed
  next
    case (Some m)
    show ?thesis
    proof (cases m)
      case Dir
      with Some have step: "mkdir_walk h pre (c # cs) f = mkdir_walk h (pre @ [c]) cs f"
        by (simp add: Let_def)
      have "snd (mkdir_walk h (pre @ [c]) cs f) q = Some n"
        using Cons.prems by (rule Cons.IH)
      then show ?thesis by (simp only: step)
    next
      case (File x)
      with Some Cons.prems show ?thesis by (simp add: Let_def)
    qed
  qed
qed

lemma mkdir_walk_changes:
  "snd (mkdir_walk h pre cs f) q \<noteq> f q \<Longrightarrow> prefix q (pre @ cs)"
proof (induction cs arbitrary: pre f)
  case Nil
  then show ?case by simp
next
  case (Cons c cs)
  show ?case
  proof (cases "f (pre @ [c])")
    case None
    show ?thesis
    proof (cases "fs_fault h (pre @ [c])")
      case True
      with None Cons.prems show ?thesis by (simp add: Let_def)
    next
      case False
      with None have step: "mkdir_walk h pre (c # cs) f = mkdir_walk h (pre @ [c]) cs (f(pre @ [c] \<mapsto> Dir))"
        by (simp add: Let_def)
      show ?thesis
      proof (cases "q = pre @ [c]")
        case True
        then show ?thesis by simp
      next
        case False
        with Cons.prems step have "snd (mkdir_walk h (pre @ [c]) cs (f(pre @ [c] \<mapsto> Dir))) q \<noteq> (f(pre @ [c] \<mapsto> Dir)) q"
          by simp
        from Cons.IH[OF this] show ?thesis by simp
      qed
    qed
  next
    case (Some m)
    show ?thesis
    proof (cases m)
      case Dir
      with Some Cons.prems have "snd (mkdir_walk h (pre @ [c]) cs f) q \<noteq> f q"
        by (simp add: Let_def)
      from Cons.IH[OF this] show ?thesis by simp
    next
      case (File x)
      with Some Cons.prems show ?thesis by (simp add: Let_def)
    qed
  qed
qed

lemma mkdir_walk_success:
  "fst (mkdir_walk h pre cs f) = None \<Longrightarrow> f pre = Some Dir \<Longrightarrow> prefix q cs \<Longrightarrow>
   snd (mkdir_walk h pre cs f) (pre @ q) = Some Dir"
proof (induction cs arbitrary: pre f q)
  case Nil
  then show ?case by simp
next
  case (Cons c cs)
  show ?case
  proof (cases q)
    case Nil
    have "snd (mkdir_walk h pre (c # cs) f) pre = Some Dir"
      using Cons.prems(2) by (rule mkdir_walk_keeps)
    with Nil show ?thesis by simp
  next
    case (Cons a q')
    with Cons.prems(3) have a: "a = c" and q': "prefix q' cs" by simp_all
    show ?thesis
    proof (cases "f (pre @ [c])")
      case None
      show ?thesis
      proof (cases "fs_fault h (pre @ [c])")
        case True
        with None Cons.prems(1) show ?thesis by (simp add: Let_def)
      next
        case False
        with None have step: "mkdir_walk h pre (c # cs) f = mkdir_walk h (pre @ [c]) cs (f(pre @ [c] \<mapsto> Dir))"
          by (simp add: Let_def)
        have g1: "fst (mkdir_walk h (pre @ [c]) cs (f(pre @ [c] \<mapsto> Dir))) = None"
          using Cons.prems(1) by (simp only: step)
        have g2: "(f(pre @ [c] \<mapsto> Dir)) (pre @ [c]) = Some Dir" by simp
        have "snd (mkdir_walk h (pre @ [c]) cs (f(pre @ [c] \<mapsto> Dir))) ((pre @ [c]) @ q') = Some Dir"
          by (rule Cons.IH[where f = "f(pre @ [c] \<mapsto> Dir)" and pre = "pre @ [c]" and q = q', OF g1 g2 q'])
        then have "snd (mkdir_walk h pre (c # cs) f) (pre @ c # q') = Some Dir"
          by (simp only: step) simp
        then show ?thesis using Cons a by simp
      qed
    next
      case (Some m)
      show ?thesis
      proof (cases m)
        case Dir
        with Some have step: "mkdir_walk h pre (c # cs) f = mkdir_walk h (pre @ [c]) cs f"
          by (simp add: Let_def)
        have g1: "fst (mkdir_walk h (pre @ [c]) cs f) = None"
          using Cons.prems(1) by (simp only: step)
        have g2: "f (pre @ [c]) = Some Dir" using Some Dir by simp
        have "snd (mkdir_walk h (pre @ [c]) cs f) ((pre @ [c]) @ q') = Some Dir"
          by (rule Cons.IH[where f = f and pre = "pre @ [c]" and q = q', OF g1 g2 q'])
        then have "snd (mkdir_walk h pre (c # cs) f) (pre @ c # q') = Some Dir"
          by (simp only: step) simp
        then show ?thesis using Cons a by simp
      next
        case (File x)
        with Some Cons.prems(1) show ?thesis by (simp add: Let_def)
      qed
    qed
  qed
qed

lemma mkdirSync_success:
  assumes "wf_fs (fs w)" "mkdirSync h p w = (Inr (), w')"
  shows "dir_chain (fs w') p"
    and "fs w' = snd (mkdir_walk h [] p (fs w))"
    and "events w' = events w @ [Mkdir p]" "cwd w' = cwd w"
    and "npm_config_user_agent w' = npm_config_user_agent w"
proof -
  obtain r f' where mw: "mkdir_walk h [] p (fs w) = (r, f')" by (cases "mkdir_walk h [] p (fs w)")
  with assms(2) have r: "r = None" and w': "w' = w\<lparr>fs := f', events := events w @ [Mkdir p]\<rparr>"
    by (auto simp: mkdirSync_def split: option.splits)
  have root: "fs w [] = Some Dir" using assms(1) by (simp add: wf_fs_def)
  show "dir_chain (fs w') p"
    unfolding dir_chain_def
  proof (intro allI impI)
    fix q assume "prefix q p"
    from mkdir_walk_success[where f = "fs w" and pre = "[]" and q = q and cs = p and h = h] mw r root this
    show "fs w' q = Some Dir" by (simp add: w')
  qed
  show "fs w' = snd (mkdir_walk h [] p (fs w))" by (simp add: w' mw)
  show "events w' = events w @ [Mkdir p]" "cwd w' = cwd w"
    "npm_config_user_agent w' = npm_config_user_agent w" by (simp_all add: w')
qed

lemma mkdirSync_fresh_below:
  assumes "wf_fs (fs w)" "fs w p = None" "cs \<noteq> []"
  shows "fs (snd (mkdirSync h p w)) (p @ cs) = None"
proof -
  have "fs w (p @ cs) = None" by (rule wf_below[OF assms(1,2)])
  moreover have "\<not> prefix (p @ cs) ([] @ p)" using assms(3) by (simp add: prefix_def)
  then have "snd (mkdir_walk h [] p (fs w)) (p @ cs) = fs w (p @ cs)"
    using mkdir_walk_changes[of h "[]" p "fs w" "p @ cs"] by blast
  ultimately show ?thesis by (cases "mkdir_walk h [] p (fs w)") (simp add: mkdirSync_def)
qed


lemma createProject_fresh_cases:
  assumes fresh: "fs w (path_resolve (cwd w) projectName) = None"
  obtains (rejected) e w2 where
      "mkdirSync h (path_resolve (cwd w) projectName) (announced projectName options w) = (Inl e, w2)"
      "createProject h projectName options w = (Rejected e, w2)"
  | (returned) w2 w3 where
      "mkdirSync h (path_resolve (cwd w) projectName) (announced projectName options w) = (Inr (), w2)"
      "create_steps h (path_resolve (cwd w) projectName) projectName options w2 = (Inr (), w3)"
      "createProject h projectName options w = (Returned, w3)"
  | (rolled_back) w2 e w3 where
      "mkdirSync h (path_resolve (cwd w) projectName) (announced projectName options w) = (Inr (), w2)"
      "create_steps h (path_resolve (cwd w) projectName) projectName options w2 = (Inl e, w3)"
      "\<not> (fs w3 (path_resolve (cwd w) projectName) \<noteq> None \<and> rm_fault h (path_resolve (cwd w) projectName))"
      "createProject h projectName options w =
         (Exited 1,
          if fs w3 (path_resolve (cwd w) projectName) \<noteq> None
          then w3\<lparr>fs := (\<lambda>q. if prefix (path_resolve (cwd w) projectName) q then None else fs w3 q),
                   events := events w3 @ [ConsoleError (ErrCreating e), Rm (path_resolve (cwd w) projectName)]\<rparr>
          else w3\<lparr>events := events w3 @ [ConsoleError (ErrCreating e)]\<rparr>)"
  | (stuck) w2 e w3 where
      "mkdirSync h (path_resolve (cwd w) projectName) (announced projectName options w) = (Inr (), w2)"
      "create_steps h (path_resolve (cwd w) projectName) projectName options w2 = (Inl e, w3)"
      "fs w3 (path_resolve (cwd w) projectName) \<noteq> None" "rm_fault h (path_resolve (cwd w) projectName)"
      "createProject h projectName options w =
         (Rejected (EACCES (path_resolve (cwd w) projectName)),
          w3\<lparr>events := events w3 @ [ConsoleError (ErrCreating e), Rm (path_resolve (cwd w) projectName)]\<rparr>)"
proof -
  let ?p = "path_resolve (cwd w) projectName"
  let ?w1 = "announced projectName options w"
  obtain r w2 where m: "mkdirSync h ?p ?w1 = (r, w2)" by (cases "mkdirSync h ?p ?w1")
  have ex: "existsSync ?w1 ?p = False"
    using fresh by (simp add: existsSync_def announced_def)
  have cw: "cwd ?w1 = cwd w" by (simp add: announced_def)
  have unfold: "createProject h projectName options w =
           (case mkdirSync h ?p ?w1 of
              (Inl e, w2) \<Rightarrow> (Rejected e, w2)
            | (Inr _, w2) \<Rightarrow>
                (case create_steps h ?p projectName options w2 of
                   (Inr _, w3) \<Rightarrow> (Returned, w3)
                 | (Inl e, w3) \<Rightarrow>
                     (let w4 = w3\<lparr>events := events w3 @ [ConsoleError (ErrCreating e)]\<rparr>
                      in if existsSync w4 ?p
                         then (case rmSync h ?p w4 of
                                 (Inl e', w5) \<Rightarrow> (Rejected e', w5)
                               | (Inr _, w5) \<Rightarrow> (Exited 1, w5))
                         else (Exited 1, w4))))"
    unfolding createProject_def announced_def[symmetric]
    by (simp only: Let_def[of "announced projectName options w"] Let_def[of "path_resolve _ _"] ex cw if_False)
  show thesis
  proof (cases r)
    case (Inl e)
    show thesis
    proof (rule rejected)
      show "mkdirSync h ?p ?w1 = (Inl e, w2)" using m Inl by simp
      show "createProject h projectName options w = (Rejected e, w2)"
        using m Inl by (simp add: unfold)
    qed
  next
    case (Inr u)
    obtain r3 w3 where c: "create_steps h ?p projectName options w2 = (r3, w3)"
      by (cases "create_steps h ?p projectName options w2")
    show thesis
    proof (cases r3)
      case (Inr u')
      show thesis
      proof (rule returned)
        show "mkdirSync h ?p ?w1 = (Inr (), w2)" using m \<open>r = Inr u\<close> by simp
        show "create_steps h ?p projectName options w2 = (Inr (), w3)" using c Inr by simp
        show "createProject h projectName options w = (Returned, w3)"
          using m c Inr \<open>r = Inr u\<close> by (simp add: unfold)
      qed
    next
      case (Inl e)
      show thesis
      proof (cases "fs w3 ?p \<noteq> None \<and> rm_fault h ?p")
        case True
        show thesis
        proof (rule stuck)
          show "mkdirSync h ?p ?w1 = (Inr (), w2)" using m \<open>r = Inr u\<close> by simp
          show "create_steps h ?p projectName options w2 = (Inl e, w3)" using c Inl by simp
          show "fs w3 ?p \<noteq> None" "rm_fault h ?p" using True by simp_all
          show "createProject h projectName options w =
             (Rejected (EACCES ?p),
              w3\<lparr>events := events w3 @ [ConsoleError (ErrCreating e), Rm ?p]\<rparr>)"
            using m c Inl \<open>r = Inr u\<close> True
            by (simp add: unfold existsSync_def rmSync_def Let_def)
        qed
      next
        case False
        show thesis
        proof (rule rolled_back)
          show "mkdirSync h ?p ?w1 = (Inr (), w2)" using m \<open>r = Inr u\<close> by simp
          show "create_steps h ?p projectName options w2 = (Inl e, w3)" using c Inl by simp
          show "\<not> (fs w3 ?p \<noteq> None \<and> rm_fault h ?p)" by (rule False)
          show "createProject h projectName options w =
           (Exited 1,
            if fs w3 ?p \<noteq> None
            then w3\<lparr>fs := (\<lambda>q. if prefix ?p q then None else fs w3 q),
                     events := events w3 @ [ConsoleError (ErrCreating e), Rm ?p]\<rparr>
            else w3\<lparr>events := events w3 @ [ConsoleError (ErrCreating e)]\<rparr>)"
            using m c Inl \<open>r = Inr u\<close> False
            by (auto simp add: unfold existsSync_def rmSync_def Let_def cong: if_cong)
        qed
      qed
    qed
  qed
qed

lemma wf_demo_world: "wf_fs (fs demo_world)"
  by (auto simp: wf_fs_def demo_world_def split: if_splits)


lemma wf_demo_host: "wf_host demo_host"
  by (auto simp: wf_host_def demo_host_def intro!: wf_update_dir)

lemma demo_fresh: "fs demo_world (path_resolve (cwd demo_world) ''demo'') = None"
  by (simp add: demo_world_def path_resolve_def norm_step_def)


lemma demo_ok: "fst (createProject demo_host ''demo'' demo_options demo_world) = Returned"
  by code_simp

lemma filter_resolve_late [simp]: "filter is_resolve (late_events h w) = []"
  by (simp add: late_events_def version_events_def PACKAGE_MANAGERS_def split: option.splits)

lemma filter_resolve_project:
  "filter is_resolve (project_events h w p projectName useJS) = [Resolve p, Resolve p]"
  by (simp add: project_events_def scaffold_events_def Let_def)

lemma late_frame_eq:
  assumes "cwd w2 = cwd w" "npm_config_user_agent w2 = npm_config_user_agent w"
  shows "late_probes h w2 = late_probes h w" "late_events h w2 = late_events h w"
    "project_events h w2 p projectName useJS = project_events h w p projectName useJS"
proof -
  have e: "env_probe w2 = env_probe w" using assms(2) by (simp add: env_probe_def)
  show lp: "late_probes h w2 = late_probes h w" by (simp only: late_probes_def e)
  show le: "late_events h w2 = late_events h w" by (simp only: late_events_def e assms(1))
  show "project_events h w2 p projectName useJS = project_events h w p projectName useJS"
    by (simp only: project_events_def lp le assms(1))
qed

lemma createProject_exists_eq:
  assumes "fs w (path_resolve (cwd w) projectName) = Some entry"
  shows "createProject h projectName options w =
           (Exited 1,
            w\<lparr>events := events w @
                 [ConsoleLog (MsgCreating projectName),
                  ConsoleLog (MsgLanguage (flag_set (javascript options))),
                  ConsoleError (ErrDirectoryExists projectName)]\<rparr>)"
  using assms by (simp add: createProject_def Let_def existsSync_def)

lemma createProject_emits:
  assumes "\<And>m. Q (ConsoleLog m)" "\<And>m. Q (ConsoleError m)"
      and "Q (Mkdir (path_resolve (cwd w) projectName))" "Q (Rm (path_resolve (cwd w) projectName))"
      and "emits_only Q (create_steps h (path_resolve (cwd w) projectName) projectName options)"
  shows "\<exists>es. events (snd (createProject h projectName options w)) = events w @ es
              \<and> (\<forall>e \<in> set es. Q e)"
proof (cases "fs w (path_resolve (cwd w) projectName)")
  case (Some entry)
  from createProject_exists_eq[OF this, of h options]
  have "events (snd (createProject h projectName options w)) =
           events w @ [ConsoleLog (MsgCreating projectName),
                       ConsoleLog (MsgLanguage (flag_set (javascript options))),
                       ConsoleError (ErrDirectoryExists projectName)]" by simp
  moreover have "\<forall>e \<in> set [ConsoleLog (MsgCreating projectName),
                       ConsoleLog (MsgLanguage (flag_set (javascript options))),
                       ConsoleError (ErrDirectoryExists projectName)]. Q e"
    using assms(1,2) by simp
  ultimately show ?thesis by blast
next
  case None
  let ?p = "path_resolve (cwd w) projectName"
  let ?w1 = "announced projectName options w"
  let ?intro = "[ConsoleLog (MsgCreating projectName),
                 ConsoleLog (MsgLanguage (flag_set (javascript options)))]"
  have e1: "events ?w1 = events w @ ?intro" by (simp add: announced_def)
  have q1: "\<forall>e \<in> set ?intro. Q e" using assms(1) by simp
  have mk: "emits_only Q (mkdirSync h ?p)" by (rule emits_only_mkdirSync[where Q = Q, OF assms(3)])
  from None show ?thesis
  proof (cases rule: createProject_fresh_cases[where h = h and options = options])
    case (rejected e w2)
    from emits_onlyD[OF mk rejected(1)] obtain es2
      where "events w2 = events ?w1 @ es2" "\<forall>e \<in> set es2. Q e" by blast
    then have "events (snd (createProject h projectName options w)) = events w @ (?intro @ es2)"
      and "\<forall>e \<in> set (?intro @ es2). Q e"
      using rejected(2) e1 q1 by auto
    then show ?thesis by blast
  next
    case (returned w2 w3)
    from emits_onlyD[OF mk returned(1)] obtain es2
      where es2: "events w2 = events ?w1 @ es2" "\<forall>e \<in> set es2. Q e" by blast
    from emits_onlyD[OF assms(5) returned(2)] obtain es3
      where es3: "events w3 = events w2 @ es3" "\<forall>e \<in> set es3. Q e" by blast
    have "events (snd (createProject h projectName options w)) = events w @ (?intro @ es2 @ es3)"
      and "\<forall>e \<in> set (?intro @ es2 @ es3). Q e"
      using returned(3) e1 q1 es2 es3 by auto
    then show ?thesis by blast
  next
    case (rolled_back w2 e w3)
    from emits_onlyD[OF mk rolled_back(1)] obtain es2
      where es2: "events w2 = events ?w1 @ es2" "\<forall>e \<in> set es2. Q e" by blast
    from emits_onlyD[OF assms(5) rolled_back(2)] obtain es3
      where es3: "events w3 = events w2 @ es3" "\<forall>e \<in> set es3. Q e" by blast
    let ?tail = "if fs w3 ?p \<noteq> None then [ConsoleError (ErrCreating e), Rm ?p]
                 else [ConsoleError (ErrCreating e)]"
    have "events (snd (createProject h projectName options w)) = events w @ (?intro @ es2 @ es3 @ ?tail)"
      using rolled_back(4) e1 es2 es3 by simp
    moreover have "\<forall>e \<in> set (?intro @ es2 @ es3 @ ?tail). Q e"
      using q1 es2 es3 assms(2,4) by auto
    ultimately show ?thesis by blast
  next
    case (stuck w2 e w3)
    from emits_onlyD[OF mk stuck(1)] obtain es2
      where es2: "events w2 = events ?w1 @ es2" "\<forall>e \<in> set es2. Q e" by blast
    from emits_onlyD[OF assms(5) stuck(2)] obtain es3
      where es3: "events w3 = events w2 @ es3" "\<forall>e \<in> set es3. Q e" by blast
    let ?tail = "[ConsoleError (ErrCreating e), Rm ?p]"
    have "events (snd (createProject h projectName options w)) = events w @ (?intro @ es2 @ es3 @ ?tail)"
      using stuck(5) e1 es2 es3 by simp
    moreover have "\<forall>e \<in> set (?intro @ es2 @ es3 @ ?tail). Q e"
      using q1 es2 es3 assms(2,4) by auto
    ultimately show ?thesis by blast
  qed
qed

lemma create_steps_js_writes:
  assumes "flag_set (javascript options)"
      and q: "\<And>e. Q e \<longleftrightarrow> (\<forall>t. written_path e = Some t \<longrightarrow>
                 t \<in> {p @ [''src'', ''index.js''], p @ [''README.md''], p @ [''.gitignore''],
                       p @ [''package.json'']})"
  shows "emits_only Q (create_steps h p projectName options)"
  unfolding create_steps_def createProjectStructure_def copyTemplateFiles_def createPackageJson_def Let_def
  using assms(1)
  by (intro emits_only_seq emits_only_bind emits_only_forEach emits_only_detect
        emits_only_installDependencies emits_only_emit emits_only_mkdirSync emits_only_writeFileSync)
     (auto simp: q getTemplateFiles_def path_join_names
           intro!: emits_only_seq emits_only_mkdirSync emits_only_writeFileSync)






section \<open>Manifest contents by mode and manager\<close>

text \<open>
  Claim C6. In typed mode, for a manager whose name is \<open>bun\<close>: the development
  dependencies have no \<open>ts-node-dev\<close> entry, the \<open>dev\<close> script is bun's own watch
  command \<open>bun run --watch src/index.ts\<close>, and this is what the manifest object carries
  under \<open>devDependencies\<close> and \<open>scripts\<close>.
\<close>

theorem generate_bun_typed:
  assumes "pm_name packageManager = Some ''bun''"
  shows "''ts-node-dev'' \<notin> fst ` set (generateDevDependencies packageManager True)
       \<and> map_of (generateScripts packageManager True) ''dev'' = Some ''bun run --watch src/index.ts''
       \<and> (\<exists>members. packageJson_object packageManager projectName True = JObject members
            \<and> map_of members ''devDependencies''
                = Some (JObject [(''@types/node'', JString ''^20.0.0''),
                                 (''typescript'', JString ''^5.0.0'')])
            \<and> map_of members ''scripts''
                = Some (JObject
                    [(''dev'', JString ''bun run --watch src/index.ts''),
                     (''build'', JString ''bun build src/index.ts --outdir dist --target node''),
                     (''start'', JString ''bun run dist/index.js'')]))"
  using assms
  by (simp add: generateDevDependencies_def generateScripts_def packageJson_object_def str_json_def)

theorem generate_bun_typed_witness:
  "pm_name (Descriptor bun) = Some ''bun''
   \<and> ''ts-node-dev'' \<notin> fst ` set (generateDevDependencies (Descriptor bun) True)
   \<and> map_of (generateScripts (Descriptor bun) True) ''dev'' = Some ''bun run --watch src/index.ts''"
  using generate_bun_typed[of "Descriptor bun" "''demo''"] by simp

section \<open>The target already exists\<close>

text \<open>
  Claim C2. When the project name resolves to an existing directory, \<open>createProject\<close>
  exits with status 1, and all it has done is print: the two opening lines and the
  directory-exists error. The file system, the working directory and the environment
  are as before; no directory or file was created, nothing was removed.
\<close>

theorem createProject_existing_directory:
  assumes "fs w (path_resolve (cwd w) projectName) = Some Dir"
  shows "createProject h projectName options w =
           (Exited 1,
            w\<lparr>events := events w @
                 [ConsoleLog (MsgCreating projectName),
                  ConsoleLog (MsgLanguage (flag_set (javascript options))),
                  ConsoleError (ErrDirectoryExists projectName)]\<rparr>)"
  using assms by (simp add: createProject_def Let_def existsSync_def)

theorem createProject_existing_directory_witness:
  "fs demo_world (path_resolve (cwd demo_world) ''taken'') = Some Dir
   \<and> fst (createProject demo_host ''taken'' demo_options demo_world) = Exited 1
   \<and> fs (snd (createProject demo_host ''taken'' demo_options demo_world)) = fs demo_world"
proof -
  have dir: "fs demo_world (path_resolve (cwd demo_world) ''taken'') = Some Dir"
    by (simp add: demo_world_def path_resolve_def norm_step_def)
  from createProject_existing_directory[OF dir, of demo_host demo_options] dir
  show ?thesis by simp
qed

text \<open>
  Claim C9. The existence check does not ask what kind of entry is there: whatever
  exists at the resolved path, a directory or a regular file, \<open>createProject\<close> exits with
  status 1 after printing the already-exists error, and the file system is untouched.
\<close>

theorem createProject_existing_entry:
  assumes "fs w (path_resolve (cwd w) projectName) = Some entry"
  shows "fst (createProject h projectName options w) = Exited 1
       \<and> fs (snd (createProject h projectName options w)) = fs w
       \<and> cwd (snd (createProject h projectName options w)) = cwd w
       \<and> events (snd (createProject h projectName options w)) =
           events w @ [ConsoleLog (MsgCreating projectName),
                       ConsoleLog (MsgLanguage (flag_set (javascript options))),
                       ConsoleError (ErrDirectoryExists projectName)]"
  using assms by (simp add: createProject_def Let_def existsSync_def)

theorem createProject_existing_entry_witness:
  "fs demo_world (path_resolve (cwd demo_world) ''notes'') = Some (File (NonJson ''to do''))
   \<and> fst (createProject demo_host ''notes'' demo_options demo_world) = Exited 1
   \<and> fs (snd (createProject demo_host ''notes'' demo_options demo_world)) = fs demo_world"
proof -
  have reg: "fs demo_world (path_resolve (cwd demo_world) ''notes'') = Some (File (NonJson ''to do''))"
    by (simp add: demo_world_def path_resolve_def norm_step_def)
  from createProject_existing_entry[OF reg, of demo_host demo_options] reg
  show ?thesis by simp
qed

section \<open>Resolution of the package manager\<close>

text \<open>
  \<open>detectPackageManager\<close> always returns: the read of the manifest and the version
  commands are the only steps that can throw, and both sit in a \<open>try\<close>.
\<close>

lemma detectPackageManager_returns:
  "\<exists>v w'. detectPackageManager h projectPath w = (Inr v, w')"
  by (rule detect_total)

text \<open>
  In a directory with no lock file, no config file and no manifest, with no user agent
  in the environment and no manager installed, the result is the npm descriptor.
\<close>

lemma detectPackageManager_default:
  assumes "no_lock_files w d" "no_config_files w d" "fs w (d @ [''package.json'']) = None"
      and "npm_config_user_agent w = None"
      and "\<forall>(k, pm) \<in> set PACKAGE_MANAGERS. \<not> available h (name pm @ '' --version'')"
  shows "fst (detectPackageManager h (Some d) w) = Inr (Descriptor npm)"
  by (rule detect_default[OF assms])

text \<open>
  Claim C3. The value returned is not always one of the four descriptors. The manifest
  probe tests \<open>PACKAGE_MANAGERS[pmName]\<close> for truthiness, and that read also finds what
  the table inherits from \<open>Object.prototype\<close>: for a manifest whose \<open>packageManager\<close>
  field is \<open>constructor@1.0.0\<close> the function returns the inherited \<open>constructor\<close>
  member.
\<close>

theorem detectPackageManager_prototype_member:
  "fst (detectPackageManager demo_host (Some [''app'']) proto_world)
     = Inr (ProtoMember ''constructor'')"
  by (simp add: detectPackageManager_def proto_world_def pm_defs path_join_names existsSync_def
        manifest_probe_def prog_defs readFileSync_def parse_manifest_def PACKAGE_MANAGERS_get_def
        Object_prototype_keys_def Let_def)




text \<open>
  Claim C10. For every manager \<open>M\<close> of the table, the manifest generated for \<open>M\<close> has no
  \<open>packageManager\<close> member when \<open>M\<close> is npm and the member \<open><name>@latest\<close> otherwise.
  For \<open>M\<close> other than npm, in a directory that holds this manifest and no lock or config
  file, the manifest probe finds \<open>M\<close> again, and so does \<open>detectPackageManager\<close>.
\<close>

theorem packageManager_pin_roundtrip:
  assumes "(k, M) \<in> set PACKAGE_MANAGERS"
  shows "get_packageManager (packageJson_object (Descriptor M) projectName isTS)
           = Inr (if name M = ''npm'' then None else Some (JString (name M @ ''@latest'')))
       \<and> (name M \<noteq> ''npm'' \<and> no_lock_files w d \<and> no_config_files w d
            \<and> fs w (d @ [''package.json''])
                = Some (File (JSON_stringify (packageJson_object (Descriptor M) projectName isTS)))
          \<longrightarrow> fst (manifest_probe d w) = Inr (Some (Descriptor M))
            \<and> fst (detectPackageManager h (Some d) w) = Inr (Descriptor M))"
proof (intro conjI impI)
  show "get_packageManager (packageJson_object (Descriptor M) projectName isTS)
           = Inr (if name M = ''npm'' then None else Some (JString (name M @ ''@latest'')))"
    by (rule pin_field[OF assms])
next
  assume a: "name M \<noteq> ''npm'' \<and> no_lock_files w d \<and> no_config_files w d
            \<and> fs w (d @ [''package.json''])
                = Some (File (JSON_stringify (packageJson_object (Descriptor M) projectName isTS)))"
  then show "fst (manifest_probe d w) = Inr (Some (Descriptor M))"
    by (simp add: manifest_probe_pinned[OF assms])
  from a have "manifest_probe d (w\<lparr>events := events w @ [Resolve d]\<rparr>) =
           (Inr (Some (Descriptor M)),
            w\<lparr>events := events w @ [Resolve d] @ [ConsoleLog (MsgDetectedManifest (name M))]\<rparr>)"
    by (simp add: manifest_probe_pinned[OF assms])
  from detect_manifest[OF _ _ this, of h] a
  show "fst (detectPackageManager h (Some d) w) = Inr (Descriptor M)" by simp
qed

theorem packageManager_pin_roundtrip_witness:
  "(''pnpm'', pnpm) \<in> set PACKAGE_MANAGERS \<and> name pnpm \<noteq> ''npm''
   \<and> no_lock_files pinned_world [''app''] \<and> no_config_files pinned_world [''app'']
   \<and> get_packageManager (packageJson_object (Descriptor pnpm) ''demo'' True)
       = Inr (Some (JString ''pnpm@latest''))
   \<and> fst (detectPackageManager demo_host (Some [''app'']) pinned_world) = Inr (Descriptor pnpm)"
proof -
  have m: "(''pnpm'', pnpm) \<in> set PACKAGE_MANAGERS"
    by (simp add: PACKAGE_MANAGERS_def)
  have l: "no_lock_files pinned_world [''app'']"
    by (simp add: no_lock_files_def PACKAGE_MANAGERS_def pinned_world_def)
  have c: "no_config_files pinned_world [''app'']"
    by (simp add: no_config_files_def PACKAGE_MANAGERS_def pinned_world_def)
  have f: "fs pinned_world ([''app''] @ [''package.json''])
             = Some (File (JSON_stringify (packageJson_object (Descriptor pnpm) ''demo'' True)))"
    by (simp add: pinned_world_def)
  from packageManager_pin_roundtrip[OF m, of "''demo''" True pinned_world "[''app'']" demo_host] m l c f
  show ?thesis by simp
qed

section \<open>Rollback\<close>




section \<open>How often the resolver runs\<close>

text \<open>
  Claim C5, as stated: a complete run on a host where only pnpm is installed. The record
  of events shows two entries into \<open>detectPackageManager\<close>, not one, and the second finds
  the manager in the manifest that the run has just written: probe 3 hits.
\<close>

theorem resolver_invoked_twice_counterexample:
  "fst (createProject pnpm_host ''demo'' demo_options demo_world) = Returned
   \<and> filter is_resolve (events (snd (createProject pnpm_host ''demo'' demo_options demo_world)))
       = [Resolve [''home'', ''demo''], Resolve [''home'', ''demo'']]
   \<and> ConsoleLog (MsgDetectedManifest ''pnpm'')
       \<in> set (events (snd (createProject pnpm_host ''demo'' demo_options demo_world)))"
  by code_simp

text \<open>
  Claim C5, amended. In every complete run on a fresh target the events are the two
  opening lines, the creation of the project directory, and then \<open>project_events\<close>: the
  scaffold; a first entry into the resolver from \<open>createPackageJson\<close>, at which neither
  lock file, config file nor manifest exists in the new directory, so that the
  descriptor \<open>D\<close> comes from probes 4 to 6; the manifest written for \<open>D\<close>; a second entry
  into the resolver from \<open>createProject\<close>, which returns \<open>D\<close> again (through the manifest
  field when \<open>D\<close> is not npm, through probes 4 to 6 otherwise); and the install command
  of \<open>D\<close> run in the project directory. The resolver is entered exactly twice.
\<close>

theorem createProject_resolves_twice:
  assumes "wf_fs (fs w)"
      and "fs w (path_resolve (cwd w) projectName) = None"
      and "createProject h projectName options w = (Returned, w')"
  shows "events w' =
           events w @ [ConsoleLog (MsgCreating projectName),
                       ConsoleLog (MsgLanguage (flag_set (javascript options))),
                       Mkdir (path_resolve (cwd w) projectName)]
             @ project_events h w (path_resolve (cwd w) projectName) projectName
                 (flag_set (javascript options))
       \<and> filter is_resolve
            (project_events h w (path_resolve (cwd w) projectName) projectName
               (flag_set (javascript options)))
           = [Resolve (path_resolve (cwd w) projectName), Resolve (path_resolve (cwd w) projectName)]
       \<and> WriteFile (path_resolve (cwd w) projectName @ [''package.json''])
            (JSON_stringify (packageJson_object (Descriptor (late_probes h w)) projectName
                               (\<not> flag_set (javascript options))))
           \<in> set (project_events h w (path_resolve (cwd w) projectName) projectName
                    (flag_set (javascript options)))
       \<and> Exec (installCommand (late_probes h w)) (path_resolve (cwd w) projectName)
           \<in> set (project_events h w (path_resolve (cwd w) projectName) projectName
                    (flag_set (javascript options)))
       \<and> (late_probes h w \<noteq> npm \<longrightarrow>
            ConsoleLog (MsgDetectedManifest (name (late_probes h w)))
              \<in> set (project_events h w (path_resolve (cwd w) projectName) projectName
                       (flag_set (javascript options))))"
proof -
  let ?p = "path_resolve (cwd w) projectName"
  let ?w1 = "announced projectName options w"
  have wf1: "wf_fs (fs ?w1)" and f1: "fs ?w1 ?p = None"
    using assms(1,2) by (simp_all add: announced_def)
  from assms(2) have "events w' = events w @ [ConsoleLog (MsgCreating projectName),
                       ConsoleLog (MsgLanguage (flag_set (javascript options))), Mkdir ?p]
             @ project_events h w ?p projectName (flag_set (javascript options))"
  proof (cases rule: createProject_fresh_cases[where h = h and options = options])
    case (rejected e w2)
    with assms(3) show ?thesis by simp
  next
    case (rolled_back w2 e w3)
    with assms(3) show ?thesis by simp
  next
    case (stuck w2 e w3)
    with assms(3) show ?thesis by simp
  next
    case (returned w2 w3)
    note ms = mkdirSync_success[OF wf1 returned(1)]
    have fresh2: "\<And>cs. cs \<noteq> [] \<Longrightarrow> fs w2 (?p @ cs) = None"
      using mkdirSync_fresh_below[OF wf1 f1, of _ h] returned(1) by simp
    have pe: "project_events h w2 ?p projectName (flag_set (javascript options))
                = project_events h w ?p projectName (flag_set (javascript options))"
      by (rule late_frame_eq) (simp_all add: ms(4,5) announced_def)
    from create_steps_success[OF ms(1) fresh2 returned(2)]
    have "events w3 = events w2 @ project_events h w ?p projectName (flag_set (javascript options))"
      by (simp add: pe)
    moreover have "w' = w3" using returned(3) assms(3) by simp
    ultimately show ?thesis using ms(3) by (simp add: announced_def)
  qed
  then show ?thesis
    by (simp add: filter_resolve_project) (simp add: project_events_def Let_def)
qed

theorem createProject_resolves_twice_witness:
  "wf_fs (fs demo_world)
   \<and> fs demo_world (path_resolve (cwd demo_world) ''demo'') = None
   \<and> fst (createProject demo_host ''demo'' demo_options demo_world) = Returned
   \<and> filter is_resolve
        (project_events demo_host demo_world (path_resolve (cwd demo_world) ''demo'') ''demo''
           (flag_set (javascript demo_options)))
       = [Resolve (path_resolve (cwd demo_world) ''demo''),
          Resolve (path_resolve (cwd demo_world) ''demo'')]
   \<and> events (snd (createProject demo_host ''demo'' demo_options demo_world)) =
       events demo_world @ [ConsoleLog (MsgCreating ''demo''),
                            ConsoleLog (MsgLanguage (flag_set (javascript demo_options))),
                            Mkdir (path_resolve (cwd demo_world) ''demo'')]
         @ project_events demo_host demo_world (path_resolve (cwd demo_world) ''demo'') ''demo''
             (flag_set (javascript demo_options))"
proof -
  have run: "createProject demo_host ''demo'' demo_options demo_world
               = (Returned, snd (createProject demo_host ''demo'' demo_options demo_world))"
    using demo_ok by (simp add: prod_eq_iff)
  from createProject_resolves_twice[OF wf_demo_world demo_fresh run]
  show ?thesis using wf_demo_world demo_fresh demo_ok by simp
qed

section \<open>Untyped mode\<close>

text \<open>
  Claim C7. In untyped mode the development dependencies are empty whatever the manager,
  and the manifest carries an empty \<open>devDependencies\<close> object; the template files for the
  extension \<open>js\<close> do not include \<open>tsconfig.json\<close>; and in a run of \<open>createProject\<close> with
  the \<open>javascript\<close> flag set, however it ends, the only files written are the entry
  point \<open>src/index.js\<close>, the readme, the ignore file and the manifest: no
  \<open>tsconfig.json\<close> is written into the project directory.
\<close>

theorem untyped_no_tsconfig:
  "generateDevDependencies packageManager False = []
   \<and> (\<exists>members. packageJson_object packageManager projectName False = JObject members
         \<and> map_of members ''devDependencies'' = Some (JObject []))
   \<and> ''tsconfig.json'' \<notin> fst ` set (getTemplateFiles template ''js'')
   \<and> (flag_set (javascript options) \<longrightarrow>
        (\<exists>es. events (snd (createProject h projectName options w)) = events w @ es
           \<and> (\<forall>e \<in> set es.
                 written_path e \<noteq> Some (path_resolve (cwd w) projectName @ [''tsconfig.json''])
                 \<and> (\<forall>t. written_path e = Some t \<longrightarrow>
                       t \<in> {path_resolve (cwd w) projectName @ [''src'', ''index.js''],
                             path_resolve (cwd w) projectName @ [''README.md''],
                             path_resolve (cwd w) projectName @ [''.gitignore''],
                             path_resolve (cwd w) projectName @ [''package.json'']}))))"
proof (intro conjI impI)
  show "generateDevDependencies packageManager False = []"
    by (simp add: generateDevDependencies_def)
  show "\<exists>members. packageJson_object packageManager projectName False = JObject members
         \<and> map_of members ''devDependencies'' = Some (JObject [])"
    by (simp add: packageJson_object_def generateDevDependencies_def str_json_def)
  show "''tsconfig.json'' \<notin> fst ` set (getTemplateFiles template ''js'')"
    by (simp add: getTemplateFiles_def)
next
  assume js: "flag_set (javascript options)"
  let ?p = "path_resolve (cwd w) projectName"
  define Q where "Q e \<longleftrightarrow> (\<forall>t. written_path e = Some t \<longrightarrow>
                 t \<in> {?p @ [''src'', ''index.js''], ?p @ [''README.md''], ?p @ [''.gitignore''],
                       ?p @ [''package.json'']})" for e
  have steps: "emits_only Q (create_steps h ?p projectName options)"
    by (rule create_steps_js_writes[OF js]) (simp add: Q_def)
  have "\<exists>es. events (snd (createProject h projectName options w)) = events w @ es
              \<and> (\<forall>e \<in> set es. Q e)"
    by (rule createProject_emits[OF _ _ _ _ steps]) (simp_all add: Q_def)
  then obtain es where es: "events (snd (createProject h projectName options w)) = events w @ es"
    "\<forall>e \<in> set es. Q e" by blast
  have "\<forall>e \<in> set es. written_path e \<noteq> Some (?p @ [''tsconfig.json''])
                 \<and> (\<forall>t. written_path e = Some t \<longrightarrow>
                       t \<in> {?p @ [''src'', ''index.js''], ?p @ [''README.md''], ?p @ [''.gitignore''],
                             ?p @ [''package.json'']})"
    using es(2) by (auto simp: Q_def)
  with es(1) show "\<exists>es. events (snd (createProject h projectName options w)) = events w @ es
           \<and> (\<forall>e \<in> set es.
                 written_path e \<noteq> Some (?p @ [''tsconfig.json''])
                 \<and> (\<forall>t. written_path e = Some t \<longrightarrow>
                       t \<in> {?p @ [''src'', ''index.js''], ?p @ [''README.md''], ?p @ [''.gitignore''],
                             ?p @ [''package.json'']}))"
    by blast
qed

theorem untyped_no_tsconfig_witness:
  "flag_set (javascript js_options)
   \<and> generateDevDependencies (Descriptor npm) False = []
   \<and> (\<exists>es. events (snd (createProject demo_host ''demo'' js_options demo_world))
              = events demo_world @ es
         \<and> (\<forall>e \<in> set es. written_path e \<noteq> Some ([''home'', ''demo''] @ [''tsconfig.json''])))"
proof -
  have js: "flag_set (javascript js_options)" by (simp add: js_options_def flag_set_def)
  have p: "path_resolve (cwd demo_world) ''demo'' = [''home'', ''demo'']"
    by (simp add: demo_world_def path_resolve_def norm_step_def)
  from untyped_no_tsconfig[where packageManager = "Descriptor npm" and options = js_options
         and h = demo_host and projectName = "''demo''" and w = demo_world]
  have "generateDevDependencies (Descriptor npm) False = []"
    and "\<exists>es. events (snd (createProject demo_host ''demo'' js_options demo_world))
              = events demo_world @ es
         \<and> (\<forall>e \<in> set es. written_path e \<noteq> Some ([''home'', ''demo''] @ [''tsconfig.json'']))"
    using js unfolding p by blast+
  with js show ?thesis by blast
qed

section \<open>The working directory around the install\<close>

text \<open>
  Claim C8. Let the project path be a directory and the manager have an install
  command. Then \<open>installDependencies\<close> prints its line, changes into the project path,
  runs the install command there and calls \<open>chdir\<close> with the original working directory,
  in this order, whether the command exits with status zero or not. The environment is
  unchanged and the file system is as the install command left it. Provided the
  original working directory is still a directory at that point, the working directory
  afterwards is the original one, and the function throws exactly when the command
  failed.
\<close>

theorem installDependencies_restores_cwd:
  assumes "fs w projectPath = Some Dir"
      and "pm_installCommand packageManager = Some command"
  shows "events (snd (installDependencies h packageManager projectPath w))
           = events w @ [ConsoleLog (MsgInstalling (js_string (pm_name packageManager))),
                         Chdir projectPath, Exec command projectPath, Chdir (cwd w)]
       \<and> npm_config_user_agent (snd (installDependencies h packageManager projectPath w))
           = npm_config_user_agent w
       \<and> fs (snd (installDependencies h packageManager projectPath w))
           = snd (install h command projectPath (fs w))
       \<and> (snd (install h command projectPath (fs w)) (cwd w) = Some Dir \<longrightarrow>
            cwd (snd (installDependencies h packageManager projectPath w)) = cwd w
            \<and> fst (installDependencies h packageManager projectPath w)
                = (if fst (install h command projectPath (fs w)) then Inr ()
                   else Inl (CommandFailed command)))"
proof -
  obtain ok f' where i: "install h command projectPath (fs w) = (ok, f')"
    by (cases "install h command projectPath (fs w)")
  show ?thesis
    by (simp add: installDependencies_eq[OF assms(1) i assms(2)] i Let_def
          split: option.splits node.splits)
qed

theorem installDependencies_restores_cwd_witness:
  "fs demo_world [''home'', ''taken''] = Some Dir
   \<and> fst (installDependencies demo_host (Descriptor npm) [''home'', ''taken''] demo_world) = Inr ()
   \<and> cwd (snd (installDependencies demo_host (Descriptor npm) [''home'', ''taken''] demo_world))
       = cwd demo_world
   \<and> fst (installDependencies failing_host (Descriptor npm) [''home'', ''taken''] demo_world)
       = Inl (CommandFailed ''npm install'')
   \<and> cwd (snd (installDependencies failing_host (Descriptor npm) [''home'', ''taken''] demo_world))
       = cwd demo_world"
proof -
  have d: "fs demo_world [''home'', ''taken''] = Some Dir" by (simp add: demo_world_def)
  have c: "pm_installCommand (Descriptor npm) = Some ''npm install''" by simp
  have k1: "snd (install demo_host ''npm install'' [''home'', ''taken''] (fs demo_world)) (cwd demo_world) = Some Dir"
    by (simp add: demo_host_def demo_world_def)
  have k2: "snd (install failing_host ''npm install'' [''home'', ''taken''] (fs demo_world)) (cwd demo_world) = Some Dir"
    by (simp add: failing_host_def demo_world_def)
  from installDependencies_restores_cwd[OF d c, of demo_host]
       installDependencies_restores_cwd[OF d c, of failing_host] d k1 k2
  show ?thesis by (simp add: demo_host_def failing_host_def)
qed
end
